theory Spec2Isabelle
  imports Main "HOL-Library.Sublist" "HOL-Library.Multiset"
begin

section \<open>Values and strings\<close>

text \<open>
  The program is Python. Its review state, its findings and everything the structured
  extractor returns are JSON-shaped values: \<open>None\<close>, booleans, integers, strings,
  lists and dictionaries with string keys. A dictionary keeps its insertion order, so it
  is an association list whose keys are distinct. Strings are lists of 8-bit characters:
  the model covers texts whose code points are below 256.
\<close>

datatype json =
    JNull
  | JBool bool
  | JNum int
  | JStr string
  | JList "json list"
  | JDict "(string \<times> json) list"

text \<open>Python's truth value of an object, as \<open>if x\<close> and \<open>not x\<close> test it.\<close>

fun truthy :: "json \<Rightarrow> bool" where
  "truthy JNull = False"
| "truthy (JBool b) = b"
| "truthy (JNum n) = (n \<noteq> 0)"
| "truthy (JStr s) = (s \<noteq> [])"
| "truthy (JList xs) = (xs \<noteq> [])"
| "truthy (JDict kvs) = (kvs \<noteq> [])"

text \<open>\<open>d.get(k, default)\<close> on a dictionary.\<close>

definition dict_get :: "(string \<times> json) list \<Rightarrow> string \<Rightarrow> json \<Rightarrow> json" where
  "dict_get kvs k dflt = (case map_of kvs k of None \<Rightarrow> dflt | Some v \<Rightarrow> v)"

text \<open>\<open>d[k] = v\<close>: an existing key keeps its place, a new key goes to the end.\<close>

fun dict_set :: "(string \<times> json) list \<Rightarrow> string \<Rightarrow> json \<Rightarrow> (string \<times> json) list" where
  "dict_set [] k v = [(k, v)]"
| "dict_set ((k', v') # kvs) k v =
     (if k' = k then (k, v) # kvs else (k', v') # dict_set kvs k v)"

text \<open>
  \<open>str.isspace\<close> on the code points below 256; \<open>\s\<close> of the \<open>re\<close> module
  matches the same characters on a \<open>str\<close> pattern.
\<close>

definition is_space :: "char \<Rightarrow> bool" where
  "is_space c = ((of_char c :: nat) \<in> {9, 10, 11, 12, 13, 28, 29, 30, 31, 32, 133, 160})"

definition lstrip :: "string \<Rightarrow> string" where
  "lstrip s = dropWhile is_space s"

definition rstrip :: "string \<Rightarrow> string" where
  "rstrip s = rev (dropWhile is_space (rev s))"

definition strip :: "string \<Rightarrow> string" where
  "strip s = rstrip (lstrip s)"

text \<open>\<open>s.rstrip(',')\<close>: every trailing comma goes, not only one.\<close>

definition rstrip_comma :: "string \<Rightarrow> string" where
  "rstrip_comma s = rev (dropWhile (\<lambda>c. c = CHR '','') (rev s))"

text \<open>\<open>s.find(pat)\<close>: the index of the first occurrence, \<open>None\<close> for Python's -1.\<close>

fun find_sub :: "string \<Rightarrow> string \<Rightarrow> nat option" where
  "find_sub pat [] = (if pat = [] then Some 0 else None)"
| "find_sub pat (c # cs) =
     (if prefix pat (c # cs) then Some 0 else map_option Suc (find_sub pat cs))"

definition find_chr :: "char \<Rightarrow> string \<Rightarrow> nat option" where
  "find_chr c s = find_sub [c] s"

text \<open>\<open>s.rfind(c)\<close> for a single character: the index of its last occurrence.\<close>

fun rfind_chr :: "char \<Rightarrow> string \<Rightarrow> nat option" where
  "rfind_chr c [] = None"
| "rfind_chr c (x # xs) =
     (case rfind_chr c xs of
        Some i \<Rightarrow> Some (Suc i)
      | None \<Rightarrow> if x = c then Some 0 else None)"

text \<open>\<open>s.count(c)\<close> for a single character.\<close>

definition count_chr :: "char \<Rightarrow> string \<Rightarrow> nat" where
  "count_chr c s = length (filter (\<lambda>x. x = c) s)"

text \<open>\<open>s[i:j]\<close> for \<open>0 \<le> i\<close> and \<open>0 \<le> j\<close>.\<close>

definition slice :: "string \<Rightarrow> nat \<Rightarrow> nat \<Rightarrow> string" where
  "slice s i j = take (j - i) (drop i s)"

section \<open>The structured extractor (utils/llm_parser.py)\<close>

text \<open>
  \<open>safe_parse_json(text, expected_type)\<close>. The expected type is \<open>list\<close> or
  \<open>dict\<close>; the source has a third branch for any other type, kept here with the value
  that calling the type constructs.
\<close>

datatype expected_type = TList | TDict | TOther json

fun empty_instance :: "expected_type \<Rightarrow> json" where
  "empty_instance TList = JList []"
| "empty_instance TDict = JDict []"
| "empty_instance (TOther e) = e"

text \<open>
  The response of the text producer is a string, or a list of content parts which the
  extractor joins (\<open>"".join([str(item) for item in text])\<close>); the parts are given as
  the strings \<open>str(item)\<close>.
\<close>

datatype raw_text = Text string | Parts "string list"

text \<open>
  \<open>re.search(opener + r'\s*(.*?)\s*```', text, re.DOTALL)\<close> followed by
  \<open>group(1).strip()\<close>, for the two openers of the source, \<open>```json\<close> and
  \<open>```\<close>. The search succeeds at the first occurrence of the opener that has a
  closing fence after it; no later start can succeed when that one fails, a later opener
  being itself a fence after the first. The lazy group ends before the white space in
  front of the first closing fence, and the greedy \<open>\s*\<close> in front cannot swallow a
  backtick, so the stripped group is the stripped text between opener and closing fence.
\<close>

definition fenced :: "string \<Rightarrow> string \<Rightarrow> string option" where
  "fenced opener text =
     (case find_sub opener text of
        None \<Rightarrow> None
      | Some i \<Rightarrow>
          (let rest = drop (i + length opener) text in
           case find_sub ''```'' rest of
             None \<Rightarrow> None
           | Some r \<Rightarrow> Some (strip (take r rest))))"

text \<open>The index arithmetic of the third alternative, with \<open>None\<close> for -1.\<close>

fun start_index :: "expected_type \<Rightarrow> string \<Rightarrow> nat option" where
  "start_index TList text = find_chr CHR ''['' text"
| "start_index TDict text = find_chr CHR ''{'' text"
| "start_index (TOther e) text =
     (case (find_chr CHR ''['' text, find_chr CHR ''{'' text) of
        (Some l, None) \<Rightarrow> Some l
      | (Some l, Some d) \<Rightarrow> if l < d then Some l else Some d
      | (None, d) \<Rightarrow> d)"

fun max_index :: "nat option \<Rightarrow> nat option \<Rightarrow> nat option" where
  "max_index None b = b"
| "max_index a None = a"
| "max_index (Some a) (Some b) = Some (max a b)"

fun end_index :: "expected_type \<Rightarrow> string \<Rightarrow> nat option" where
  "end_index TList text = rfind_chr CHR '']'' text"
| "end_index TDict text = rfind_chr CHR ''}'' text"
| "end_index (TOther e) text = max_index (rfind_chr CHR '']'' text) (rfind_chr CHR ''}'' text)"

text \<open>Step 1 of the source: the candidate text \<open>json_str\<close>.\<close>

definition locate_json :: "string \<Rightarrow> expected_type \<Rightarrow> string" where
  "locate_json text ty =
     (case fenced ''```json'' text of
        Some g \<Rightarrow> g
      | None \<Rightarrow>
         (case fenced ''```'' text of
            Some g \<Rightarrow> g
          | None \<Rightarrow>
             (case start_index ty text of
                Some s \<Rightarrow>
                  (case end_index ty text of
                     Some e \<Rightarrow>
                       if e > s then strip (slice text s (e + 1)) else strip (drop s text)
                   | None \<Rightarrow> strip (drop s text))
              | None \<Rightarrow> strip text)))"

text \<open>Step 4 of the source: the repaired text handed to the second strict parse.\<close>

definition close_braces :: "string \<Rightarrow> string" where
  "close_braces json_str =
     (let temp_str = rstrip_comma (rstrip json_str);
          open_braces = count_chr CHR ''{'' temp_str;
          close_braces = count_chr CHR ''}'' temp_str
      in if open_braces > close_braces
         then temp_str @ replicate (open_braces - close_braces) CHR ''}''
         else temp_str)"

fun repair :: "expected_type \<Rightarrow> string \<Rightarrow> string option" where
  "repair TList json_str =
     (if suffix '']'' json_str then None else Some (close_braces json_str @ '']''))"
| "repair TDict json_str =
     (if suffix ''}'' json_str then None else Some (close_braces json_str))"
| "repair (TOther e) json_str = None"

text \<open>
  The strict parser \<open>json.loads\<close> belongs to the standard library, so it is a
  parameter \<open>loads\<close> of the model. It returns the decoded value or raises; the
  source guards its first call by \<open>except json.JSONDecodeError\<close> and its second
  call by a bare \<open>except\<close>, so the model tells the two kinds of exception apart.
\<close>

datatype py_exception = JSONDecodeError | OtherException string

type_synonym loads = "string \<Rightarrow> py_exception + json"

text \<open>
  Steps 3 and 4 of the source, on the candidate text. The result is the returned value
  (\<open>Inl\<close>: an exception leaves the function) together with the texts handed to
  \<open>loads\<close>, in call order.
\<close>

definition parse_located ::
  "loads \<Rightarrow> string \<Rightarrow> expected_type \<Rightarrow> (py_exception + json) \<times> string list" where
  "parse_located loads json_str ty =
     (if json_str = [] then (Inr (empty_instance ty), [])
      else
        (case loads json_str of
           Inr v \<Rightarrow> (Inr v, [json_str])
         | Inl (OtherException m) \<Rightarrow> (Inl (OtherException m), [json_str])
         | Inl JSONDecodeError \<Rightarrow>
            (case repair ty json_str of
               None \<Rightarrow> (Inr (empty_instance ty), [json_str])
             | Some temp_str \<Rightarrow>
                (case loads temp_str of
                   Inr v \<Rightarrow> (Inr v, [json_str, temp_str])
                 | Inl e \<Rightarrow> (Inr (empty_instance ty), [json_str, temp_str])))))"

fun joined :: "raw_text \<Rightarrow> string" where
  "joined (Text s) = s"
| "joined (Parts ps) = concat ps"

fun is_empty_text :: "raw_text \<Rightarrow> bool" where
  "is_empty_text (Text s) = (s = [])"
| "is_empty_text (Parts ps) = (ps = [])"

definition safe_parse_json_trace ::
  "loads \<Rightarrow> raw_text \<Rightarrow> expected_type \<Rightarrow> (py_exception + json) \<times> string list" where
  "safe_parse_json_trace loads text ty =
     (if is_empty_text text then (Inr (empty_instance ty), [])
      else parse_located loads (locate_json (joined text) ty) ty)"

definition safe_parse_json :: "loads \<Rightarrow> raw_text \<Rightarrow> expected_type \<Rightarrow> py_exception + json" where
  "safe_parse_json loads text ty = fst (safe_parse_json_trace loads text ty)"

subsection \<open>A strict decoder for evaluating concrete texts\<close>

text \<open>
  To run the extractor on concrete texts, \<open>json_loads\<close> decodes the part of JSON
  that has no escape sequence in a string and no fraction or exponent in a number, as
  \<open>json.loads\<close> does on such texts: white space is blank, tab, line feed and carriage
  return; a repeated key keeps its first place and its last value; anything left after
  the value is an error. Every failure is a \<open>JSONDecodeError\<close>. The recursion is
  bounded by a fuel of twice the length of the text, which the descent cannot use up.
\<close>

definition is_json_ws :: "char \<Rightarrow> bool" where
  "is_json_ws c = ((of_char c :: nat) \<in> {9, 10, 13, 32})"

definition skip_ws :: "string \<Rightarrow> string" where
  "skip_ws s = dropWhile is_json_ws s"

definition is_digit :: "char \<Rightarrow> bool" where
  "is_digit c = (48 \<le> (of_char c :: nat) \<and> (of_char c :: nat) \<le> 57)"

definition starts :: "char \<Rightarrow> string \<Rightarrow> bool" where
  "starts c s = (case s of [] \<Rightarrow> False | x # _ \<Rightarrow> x = c)"

fun scan_string :: "string \<Rightarrow> (string \<times> string) option" where
  "scan_string [] = None"
| "scan_string (c # cs) =
     (if c = CHR 0x22 then Some ([], cs)
      else if c = CHR 0x5C \<or> (of_char c :: nat) < 32 then None
      else map_option (\<lambda>(s, r). (c # s, r)) (scan_string cs))"

definition digits_value :: "string \<Rightarrow> int" where
  "digits_value ds = foldl (\<lambda>n c. 10 * n + (int (of_char c) - 48)) 0 ds"

definition scan_int :: "string \<Rightarrow> (int \<times> string) option" where
  "scan_int cs =
     (let neg = starts CHR ''-'' cs;
          body = (if neg then tl cs else cs);
          ds = takeWhile is_digit body;
          rest = dropWhile is_digit body
      in if ds = [] \<or> (length ds > 1 \<and> hd ds = CHR ''0'') then None
         else if starts CHR ''.'' rest \<or> starts CHR ''e'' rest \<or> starts CHR ''E'' rest then None
         else Some (if neg then - digits_value ds else digits_value ds, rest))"

fun parse_value :: "nat \<Rightarrow> string \<Rightarrow> (json \<times> string) option"
and parse_items :: "nat \<Rightarrow> string \<Rightarrow> (json list \<times> string) option"
and parse_pairs :: "nat \<Rightarrow> string \<Rightarrow> ((string \<times> json) list \<times> string) option"
where
  "parse_value 0 cs = None"
| "parse_value (Suc n) cs =
     (if prefix ''null'' cs then Some (JNull, drop 4 cs)
      else if prefix ''true'' cs then Some (JBool True, drop 4 cs)
      else if prefix ''false'' cs then Some (JBool False, drop 5 cs)
      else if starts CHR 0x22 cs then map_option (\<lambda>(s, r). (JStr s, r)) (scan_string (tl cs))
      else if starts CHR ''['' cs then
        (if starts CHR '']'' (skip_ws (tl cs)) then Some (JList [], tl (skip_ws (tl cs)))
         else map_option (\<lambda>(vs, r). (JList vs, r)) (parse_items n (tl cs)))
      else if starts CHR ''{'' cs then
        (if starts CHR ''}'' (skip_ws (tl cs)) then Some (JDict [], tl (skip_ws (tl cs)))
         else map_option (\<lambda>(kvs, r). (JDict (foldl (\<lambda>d (k, v). dict_set d k v) [] kvs), r))
                (parse_pairs n (tl cs)))
      else map_option (\<lambda>(i, r). (JNum i, r)) (scan_int cs))"
| "parse_items 0 cs = None"
| "parse_items (Suc n) cs =
     (case parse_value n (skip_ws cs) of
        None \<Rightarrow> None
      | Some (v, r) \<Rightarrow>
          if starts CHR '','' (skip_ws r)
          then map_option (\<lambda>(vs, r'). (v # vs, r')) (parse_items n (tl (skip_ws r)))
          else if starts CHR '']'' (skip_ws r) then Some ([v], tl (skip_ws r))
          else None)"
| "parse_pairs 0 cs = None"
| "parse_pairs (Suc n) cs =
     (if starts CHR 0x22 (skip_ws cs) then
        (case scan_string (tl (skip_ws cs)) of
           None \<Rightarrow> None
         | Some (k, r) \<Rightarrow>
             if starts CHR '':'' (skip_ws r) then
               (case parse_value n (skip_ws (tl (skip_ws r))) of
                  None \<Rightarrow> None
                | Some (v, r') \<Rightarrow>
                    if starts CHR '','' (skip_ws r')
                    then map_option (\<lambda>(kvs, r''). ((k, v) # kvs, r''))
                           (parse_pairs n (tl (skip_ws r')))
                    else if starts CHR ''}'' (skip_ws r') then Some ([(k, v)], tl (skip_ws r'))
                    else None)
             else None)
      else None)"

definition json_loads :: loads where
  "json_loads s =
     (case parse_value (2 * length s + 2) (skip_ws s) of
        None \<Rightarrow> Inl JSONDecodeError
      | Some (v, r) \<Rightarrow> if skip_ws r = [] then Inr v else Inl JSONDecodeError)"

text \<open>
  \<open>json.loads\<close> raises more than its \<open>JSONDecodeError\<close>. Its decoder calls itself
  once for every array that opens inside another, and the interpreter raises
  \<open>RecursionError\<close> when these calls are nested deeper than its recursion limit
  (\<open>sys.getrecursionlimit()\<close>, 1000 by default). \<open>guarded_loads limit\<close> is
  \<open>json_loads\<close> behind that guard: a text that begins with more than \<open>limit\<close>
  opening brackets raises \<open>RecursionError\<close>.
\<close>

definition guarded_loads :: "nat \<Rightarrow> loads" where
  "guarded_loads limit s =
     (if limit < length (takeWhile (\<lambda>c. c = CHR ''['') (skip_ws s))
      then Inl (OtherException ''RecursionError'')
      else json_loads s)"

section \<open>Validation of parsed findings (agents/security.py, performance.py, style.py)\<close>

text \<open>
  Each agent's \<open>_parse_llm_response\<close> hands the response to the extractor with
  expected type \<open>list\<close>, wraps a value that is not a list
  (\<open>[findings] if findings else []\<close>), and walks the elements: one that is not a
  dictionary is passed over by \<open>continue\<close>; a dictionary gives a new dictionary with
  the agent's keys, each read by \<open>finding.get(key, default)\<close>, or by
  \<open>finding.get(key)\<close> whose default is \<open>None\<close>.
\<close>

definition as_list :: "json \<Rightarrow> json list" where
  "as_list findings =
     (case findings of JList xs \<Rightarrow> xs | other \<Rightarrow> if truthy other then [other] else [])"

definition fill :: "(string \<times> json) list \<Rightarrow> (string \<times> json) list \<Rightarrow> json" where
  "fill fields finding = JDict (map (\<lambda>(k, dflt). (k, dict_get finding k dflt)) fields)"

fun validate :: "(string \<times> json) list \<Rightarrow> json list \<Rightarrow> json list" where
  "validate fields [] = []"
| "validate fields (JDict finding # rest) = fill fields finding # validate fields rest"
| "validate fields (other # rest) = validate fields rest"

definition security_fields :: "string \<Rightarrow> (string \<times> json) list" where
  "security_fields file_path =
     [(''file'', JStr file_path), (''line'', JNum 0), (''severity'', JStr ''MEDIUM''),
      (''confidence'', JStr ''MEDIUM''), (''issue_type'', JStr ''SECURITY_ISSUE''),
      (''description'', JStr []), (''recommendation'', JStr []),
      (''cwe_id'', JNull), (''owasp_category'', JNull)]"

definition performance_fields :: "string \<Rightarrow> (string \<times> json) list" where
  "performance_fields file_path =
     [(''file'', JStr file_path), (''line'', JNull), (''issue_type'', JStr ''PERFORMANCE_ISSUE''),
      (''description'', JStr []), (''complexity_score'', JNull), (''impact'', JStr ''MEDIUM''),
      (''current_complexity'', JNull), (''optimized_complexity'', JNull),
      (''recommendation'', JStr []), (''estimated_improvement'', JNull)]"

definition style_fields :: "string \<Rightarrow> (string \<times> json) list" where
  "style_fields file_path =
     [(''file'', JStr file_path), (''line'', JNull), (''issue_type'', JStr ''STYLE_ISSUE''),
      (''description'', JStr []), (''severity'', JStr ''MEDIUM''),
      (''recommendation'', JStr []), (''principle_violated'', JNull),
      (''impact_on_maintainability'', JStr [])]"

definition parse_llm_response ::
  "(string \<times> json) list \<Rightarrow> loads \<Rightarrow> raw_text \<Rightarrow> py_exception + json list" where
  "parse_llm_response fields loads response =
     (case safe_parse_json loads response TList of
        Inl e \<Rightarrow> Inl e
      | Inr findings \<Rightarrow> Inr (validate fields (as_list findings)))"

definition security_parse_llm_response ::
  "loads \<Rightarrow> raw_text \<Rightarrow> string \<Rightarrow> py_exception + json list" where
  "security_parse_llm_response loads response file_path =
     parse_llm_response (security_fields file_path) loads response"

definition performance_parse_llm_response ::
  "loads \<Rightarrow> raw_text \<Rightarrow> string \<Rightarrow> py_exception + json list" where
  "performance_parse_llm_response loads response file_path =
     parse_llm_response (performance_fields file_path) loads response"

definition style_parse_llm_response ::
  "loads \<Rightarrow> raw_text \<Rightarrow> string \<Rightarrow> py_exception + json list" where
  "style_parse_llm_response loads response file_path =
     parse_llm_response (style_fields file_path) loads response"

section \<open>Git operations (utils/git_ops.py)\<close>

text \<open>
  \<open>re.search(pattern, path, re.IGNORECASE)\<close> for the seven patterns of
  \<open>is_git_url\<close>. The patterns are ASCII, and below code point 256 only an ASCII letter
  matches an ASCII letter without regard to case, so the path is compared in lower case.
  \<open>^\<close> anchors at the start; \<open>$\<close> matches at the end and before a line feed that
  ends the string.
\<close>

definition lower :: "char \<Rightarrow> char" where
  "lower c = (if 65 \<le> (of_char c :: nat) \<and> (of_char c :: nat) \<le> 90
              then char_of ((of_char c :: nat) + 32) else c)"

definition git_patterns :: "string \<Rightarrow> bool list" where
  "git_patterns path =
     (let p = map lower path in
      [prefix ''http://github.com/'' p \<or> prefix ''https://github.com/'' p,
       prefix ''http://gitlab.com/'' p \<or> prefix ''https://gitlab.com/'' p,
       prefix ''http://bitbucket.org/'' p \<or> prefix ''https://bitbucket.org/'' p,
       prefix ''git@github.com:'' p,
       prefix ''git@gitlab.com:'' p,
       prefix ''git@bitbucket.org:'' p,
       suffix ''.git'' p \<or> suffix (''.git'' @ [CHR 0x0A]) p])"

text \<open>
  \<open>urlparse\<close> belongs to the standard library and is a parameter: it returns the
  scheme and the network location of its argument, or raises.
\<close>

type_synonym urlparse = "string \<Rightarrow> py_exception + (string \<times> string)"

definition is_git_url :: "urlparse \<Rightarrow> string \<Rightarrow> bool" where
  "is_git_url urlparse path =
     (if list_ex (\<lambda>b. b) (git_patterns path) then True
      else (case urlparse path of
              Inl e \<Rightarrow> False
            | Inr (scheme, netloc) \<Rightarrow> scheme \<noteq> [] \<and> netloc \<noteq> []))"

text \<open>
  \<open>cleanup_repository(repo_path, force)\<close> on a file system given by the list of the
  paths that exist and the list of the paths that may not be examined; \<open>tmp\<close> is
  \<open>tempfile.gettempdir()\<close>. The function returns nothing; the model returns what
  leaves it (\<open>Inl\<close>: an exception), the file system it leaves and the log lines it
  writes.

  \<open>repo_path.exists()\<close> stands before the \<open>try\<close> of the source. It answers
  \<open>False\<close> for a path that is missing; when the path may not be examined (a directory
  on the way to it cannot be searched) the \<open>PermissionError\<close> of the underlying
  \<open>stat\<close> is not among the errors \<open>exists\<close> swallows, and it leaves
  \<open>cleanup_repository\<close> before anything is logged.
  \<open>shutil.rmtree(repo_path, ignore_errors=True)\<close> removes the path and everything
  below it, and raises nothing.
\<close>

datatype log_line = Warning string | Info string | Error string

definition below :: "string \<Rightarrow> string \<Rightarrow> bool" where
  "below dir p = (p = dir \<or> prefix (dir @ ''/'') p)"

definition rmtree :: "string list \<Rightarrow> string \<Rightarrow> string list" where
  "rmtree fs repo_path = filter (\<lambda>p. \<not> below repo_path p) fs"

definition path_exists :: "string list \<Rightarrow> string list \<Rightarrow> string \<Rightarrow> py_exception + bool" where
  "path_exists denied fs p =
     (if p \<in> set denied then Inl (OtherException ''PermissionError'') else Inr (p \<in> set fs))"

definition cleanup_repository ::
  "string \<Rightarrow> string list \<Rightarrow> string list \<Rightarrow> string \<Rightarrow> bool
     \<Rightarrow> (py_exception + unit) \<times> string list \<times> log_line list" where
  "cleanup_repository tmp denied fs repo_path force =
     (case path_exists denied fs repo_path of
        Inl e \<Rightarrow> (Inl e, fs, [])
      | Inr found \<Rightarrow>
        if \<not> found
        then (Inr (), fs, [Warning (''Repository path does not exist: '' @ repo_path)])
        else
          (let is_temp = prefix tmp repo_path in
           if \<not> is_temp \<and> \<not> force
           then (Inr (), fs, [Warning (''Skipping cleanup of non-temporary directory: '' @ repo_path)])
           else (Inr (), rmtree fs repo_path,
                 [Info (''Cleaning up repository: '' @ repo_path), Info ''Cleanup completed''])))"

section \<open>The review state and the stages\<close>

text \<open>
  The state handed from stage to stage is a Python dictionary; a stage returns a
  dictionary of the keys it sets. Both are maps from key to value.
\<close>

type_synonym state = "string \<Rightarrow> json option"

text \<open>\<open>state.get(k, default)\<close>; \<open>state.get(k)\<close> has the default \<open>None\<close>.\<close>

definition state_get :: "state \<Rightarrow> string \<Rightarrow> json \<Rightarrow> json" where
  "state_get st k dflt = (case st k of None \<Rightarrow> dflt | Some v \<Rightarrow> v)"

datatype node = Ingestor | Security | Performance | Style | Aggregator | END

text \<open>
  What a run does to the world outside the state is recorded as a list of events:
  a stage function was called, \<open>clone_repository\<close> or \<open>scan_local_directory\<close> was
  called, \<open>cleanup_repository\<close> was called on a path, \<open>shutil.rmtree\<close> was called
  on a path directly.
\<close>

datatype event = Ran node | Clone string | Scan string | Cleanup string | Rmtree string

text \<open>
  The collaborators of the pipeline are parameters, collected in one record. A string
  on the left of a sum is the message \<open>str(e)\<close> of the exception raised.
  \<^item> \<open>env_urlparse\<close>: \<open>urllib.parse.urlparse\<close>;
  \<^item> \<open>env_mkdtemp\<close>: the directory \<open>tempfile.mkdtemp(prefix="code_review_")\<close> makes;
  \<^item> \<open>env_clone_from\<close>: \<open>Repo.clone_from\<close> and the reads of the cloned repository
    that follow it in \<open>clone_repository\<close>;
  \<^item> \<open>env_resolve\<close>: \<open>str(Path(p).resolve())\<close>;
  \<^item> \<open>env_scan_files\<close>: the walk of \<open>scan_local_directory\<close> over a directory, which
    gives the sorted list of file entries or raises;
  \<^item> \<open>env_analyze\<close>: for each analysis stage, the construction of its agent and
    \<open>analyze_directory(working_dir, file_list)\<close>;
  \<^item> \<open>env_generate_report\<close>: \<open>AggregatorAgent().generate_report(state, output_dir)\<close>,
    which formats the report and writes the file.
\<close>

datatype clone_outcome = Cloned | GitCommandError string | CloneRaised string

record env =
  env_urlparse :: urlparse
  env_mkdtemp :: string
  env_clone_from :: "string \<Rightarrow> string \<Rightarrow> clone_outcome"
  env_resolve :: "string \<Rightarrow> string"
  env_scan_files :: "string \<Rightarrow> string + json list"
  env_analyze :: "node \<Rightarrow> json \<Rightarrow> json \<Rightarrow> string + json list"
  env_generate_report :: "state \<Rightarrow> json \<Rightarrow> string + (string \<times> string)"

subsection \<open>Ingestion (utils/git_ops.py, utils/file_scanner.py, agents/ingestor.py)\<close>

text \<open>
  \<open>clone_repository(repo_url)\<close> with the default target: a temporary directory is
  made, so \<open>is_temp\<close> is true. Only a \<open>GitCommandError\<close> is caught, and then the
  directory is removed by \<open>shutil.rmtree\<close> before the error is raised again.
\<close>

definition clone_repository :: "env \<Rightarrow> string \<Rightarrow> (string + string \<times> bool) \<times> event list" where
  "clone_repository env repo_url =
     (if \<not> is_git_url (env_urlparse env) repo_url
      then (Inl (''Invalid Git repository URL: '' @ repo_url), [])
      else
        (let target_dir = env_mkdtemp env in
         case env_clone_from env repo_url target_dir of
           Cloned \<Rightarrow> (Inr (target_dir, True), [])
         | GitCommandError msg \<Rightarrow> (Inl msg, [Rmtree target_dir])
         | CloneRaised msg \<Rightarrow> (Inl msg, [])))"

text \<open>
  \<open>scan_local_directory\<close>: the file tree it returns. Its keys \<open>total_size_mb\<close> and
  \<open>extensions\<close>, a float and a table of counts that no stage of the pipeline reads,
  are left out.
\<close>

definition scan_local_directory :: "env \<Rightarrow> string \<Rightarrow> string + (string \<times> json) list" where
  "scan_local_directory env directory_path =
     (case env_scan_files env directory_path of
        Inl msg \<Rightarrow> Inl msg
      | Inr files \<Rightarrow>
          Inr [(''root_path'', JStr (env_resolve env directory_path)),
               (''files'', JList files),
               (''total_files'', JNum (int (length files)))])"

record ingestion_result =
  success :: bool
  source_type :: string
  source_path :: string
  working_directory :: string
  file_tree :: "(string \<times> json) list"
  is_temp :: bool
  error :: json

text \<open>
  The methods of \<open>IngestorAgent\<close> take and return the agent's list
  \<open>temp_directories\<close>.
\<close>

definition ingest_git_repository ::
  "env \<Rightarrow> string \<Rightarrow> string list \<Rightarrow> (string + ingestion_result) \<times> string list \<times> event list" where
  "ingest_git_repository env repo_url temp_directories =
     (case clone_repository env repo_url of
        (Inl msg, evs) \<Rightarrow> (Inl msg, temp_directories, Clone repo_url # evs)
      | (Inr (clone_path, temp), evs) \<Rightarrow>
          (let temp_directories' =
                 (if temp then temp_directories @ [clone_path] else temp_directories)
           in case scan_local_directory env clone_path of
                Inr tree \<Rightarrow>
                  (Inr \<lparr>success = True, source_type = ''git'', source_path = repo_url,
                        working_directory = clone_path, file_tree = tree,
                        is_temp = temp, error = JNull\<rparr>,
                   temp_directories', Clone repo_url # evs @ [Scan clone_path])
              | Inl msg \<Rightarrow>
                  if temp
                  then (Inl msg, remove1 clone_path temp_directories',
                        Clone repo_url # evs @ [Scan clone_path, Cleanup clone_path])
                  else (Inl msg, temp_directories', Clone repo_url # evs @ [Scan clone_path])))"

definition ingest_local_directory ::
  "env \<Rightarrow> string \<Rightarrow> string list \<Rightarrow> (string + ingestion_result) \<times> string list \<times> event list" where
  "ingest_local_directory env directory_path temp_directories =
     (let path = env_resolve env directory_path in
      case scan_local_directory env path of
        Inl msg \<Rightarrow> (Inl msg, temp_directories, [Scan path])
      | Inr tree \<Rightarrow>
          (Inr \<lparr>success = True, source_type = ''local'', source_path = directory_path,
                working_directory = path, file_tree = tree,
                is_temp = False, error = JNull\<rparr>,
           temp_directories, [Scan path]))"

definition ingest ::
  "env \<Rightarrow> string \<Rightarrow> string list \<Rightarrow> ingestion_result \<times> string list \<times> event list" where
  "ingest env input_path temp_directories =
     (case (if is_git_url (env_urlparse env) input_path
            then ingest_git_repository env input_path temp_directories
            else ingest_local_directory env input_path temp_directories) of
        (Inr result, tds, evs) \<Rightarrow> (result, tds, evs)
      | (Inl msg, tds, evs) \<Rightarrow>
          (\<lparr>success = False, source_type = ''unknown'', source_path = input_path,
            working_directory = [], file_tree = [], is_temp = False, error = JStr msg\<rparr>,
           tds, evs))"

text \<open>\<open>IngestorAgent.cleanup\<close>: every tracked directory is cleaned up, the list is cleared.\<close>

definition agent_cleanup :: "string list \<Rightarrow> string list \<times> event list" where
  "agent_cleanup temp_directories = ([], map Cleanup temp_directories)"

text \<open>
  \<open>ingestor_node\<close>. An input path that is not a string makes \<open>re.search\<close> raise
  inside \<open>ingest\<close>, which reports the failure like any other. On success the node
  clears \<open>temp_directories\<close>, so that the agent's destructor releases nothing. The
  node's own \<open>except\<close> branch is never reached: \<open>ingest\<close> catches every exception,
  and a file tree made by \<open>scan_local_directory\<close> has the key \<open>total_files\<close>.
\<close>

definition failed_ingestion :: "state \<Rightarrow> json \<Rightarrow> state" where
  "failed_ingestion st err =
     st(''error'' \<mapsto> err, ''file_tree'' \<mapsto> JDict [], ''total_files'' \<mapsto> JNum 0)"

definition ingestor_node :: "env \<Rightarrow> state \<Rightarrow> state \<times> event list" where
  "ingestor_node env st =
     (let input_path = state_get st ''input_path'' JNull in
      if \<not> truthy input_path
      then (failed_ingestion st (JStr ''No input_path provided in state''), [])
      else
        (case input_path of
           JStr p \<Rightarrow>
             (case ingest env p [] of
                (result, temp_directories, evs) \<Rightarrow>
                  if \<not> success result
                  then (failed_ingestion st (error result),
                        evs @ snd (agent_cleanup temp_directories))
                  else
                    (st(''file_tree'' \<mapsto> JDict (file_tree result),
                        ''total_files'' \<mapsto> dict_get (file_tree result) ''total_files'' JNull,
                        ''working_directory'' \<mapsto> JStr (working_directory result),
                        ''source_type'' \<mapsto> JStr (source_type result),
                        ''is_temp_directory'' \<mapsto> JBool (is_temp result)),
                     evs))
         | other \<Rightarrow>
             (failed_ingestion st (JStr ''expected string or bytes-like object''), [])))"

subsection \<open>The gate (graph/workflow.py)\<close>

datatype route = Continue | End

text \<open>Python's \<open>x == 0\<close> on a value of the state.\<close>

definition is_zero :: "json \<Rightarrow> bool" where
  "is_zero v = (v = JNum 0 \<or> v = JBool False)"

text \<open>
  \<open>should_continue_to_agents\<close> returns the route and, having written into the
  dictionary it was given, the state it leaves.
\<close>

definition should_continue_to_agents :: "state \<Rightarrow> route \<times> state" where
  "should_continue_to_agents st =
     (if truthy (state_get st ''error'' JNull) then (End, st)
      else if is_zero (state_get st ''total_files'' (JNum 0))
      then (End, st(''error'' \<mapsto> JStr ''No files found to analyze''))
      else (Continue, st))"

subsection \<open>The analysis stages and the aggregator\<close>

text \<open>
  An analysis node reads the state and returns its update. \<open>file_tree.get\<close> on a
  value that is not a dictionary and \<open>warnings.append\<close> on a value that is not a list
  raise \<open>AttributeError\<close> outside every handler of the node. The three nodes differ
  in their key, in the label of their warning, and in what the first three exits return:
  \<open>security_node\<close> returns the whole state with its key added, the other two return
  their key alone.
\<close>

definition attribute_error :: py_exception where
  "attribute_error = OtherException ''AttributeError''"

definition analysis_failed ::
  "state \<Rightarrow> string \<Rightarrow> string \<Rightarrow> string \<Rightarrow> py_exception + state" where
  "analysis_failed st key label msg =
     (case state_get st ''warnings'' (JList []) of
        JList warnings \<Rightarrow>
          Inr [key \<mapsto> JList [],
               ''warnings'' \<mapsto> JList (warnings @ [JStr (label @ '' analysis failed: '' @ msg)])]
      | other \<Rightarrow> Inl attribute_error)"

definition security_node :: "env \<Rightarrow> state \<Rightarrow> py_exception + state" where
  "security_node env st =
     (if truthy (state_get st ''error'' JNull)
      then Inr (st(''security_findings'' \<mapsto> JList []))
      else
        (let working_dir = state_get st ''working_directory'' JNull in
         if \<not> truthy working_dir then Inr (st(''security_findings'' \<mapsto> JList []))
         else
           (case state_get st ''file_tree'' (JDict []) of
              JDict tree \<Rightarrow>
                (let file_list = dict_get tree ''files'' (JList []) in
                 if \<not> truthy file_list then Inr (st(''security_findings'' \<mapsto> JList []))
                 else
                   (case env_analyze env Security working_dir file_list of
                      Inr findings \<Rightarrow> Inr [''security_findings'' \<mapsto> JList findings]
                    | Inl msg \<Rightarrow> analysis_failed st ''security_findings'' ''Security'' msg))
            | other \<Rightarrow> Inl attribute_error)))"

definition performance_node :: "env \<Rightarrow> state \<Rightarrow> py_exception + state" where
  "performance_node env st =
     (if truthy (state_get st ''error'' JNull)
      then Inr [''performance_findings'' \<mapsto> JList []]
      else
        (let working_dir = state_get st ''working_directory'' JNull in
         if \<not> truthy working_dir then Inr [''performance_findings'' \<mapsto> JList []]
         else
           (case state_get st ''file_tree'' (JDict []) of
              JDict tree \<Rightarrow>
                (let file_list = dict_get tree ''files'' (JList []) in
                 if \<not> truthy file_list then Inr [''performance_findings'' \<mapsto> JList []]
                 else
                   (case env_analyze env Performance working_dir file_list of
                      Inr findings \<Rightarrow> Inr [''performance_findings'' \<mapsto> JList findings]
                    | Inl msg \<Rightarrow> analysis_failed st ''performance_findings'' ''Performance'' msg))
            | other \<Rightarrow> Inl attribute_error)))"

definition style_node :: "env \<Rightarrow> state \<Rightarrow> py_exception + state" where
  "style_node env st =
     (if truthy (state_get st ''error'' JNull)
      then Inr [''style_findings'' \<mapsto> JList []]
      else
        (let working_dir = state_get st ''working_directory'' JNull in
         if \<not> truthy working_dir then Inr [''style_findings'' \<mapsto> JList []]
         else
           (case state_get st ''file_tree'' (JDict []) of
              JDict tree \<Rightarrow>
                (let file_list = dict_get tree ''files'' (JList []) in
                 if \<not> truthy file_list then Inr [''style_findings'' \<mapsto> JList []]
                 else
                   (case env_analyze env Style working_dir file_list of
                      Inr findings \<Rightarrow> Inr [''style_findings'' \<mapsto> JList findings]
                    | Inl msg \<Rightarrow> analysis_failed st ''style_findings'' ''Style'' msg))
            | other \<Rightarrow> Inl attribute_error)))"

text \<open>\<open>aggregator_node\<close>: with an error in the state it returns the state as it is.\<close>

definition aggregator_node :: "env \<Rightarrow> state \<Rightarrow> state" where
  "aggregator_node env st =
     (if truthy (state_get st ''error'' JNull) then st
      else
        (let output_dir = state_get st ''output_dir'' (JStr ''./code_reviews'') in
         case env_generate_report env st output_dir of
           Inr (report_content, report_path) \<Rightarrow>
             st(''final_report'' \<mapsto> JStr report_content, ''report_path'' \<mapsto> JStr report_path)
         | Inl msg \<Rightarrow> st(''error'' \<mapsto> JStr (''Report generation failed: '' @ msg))))"

section \<open>The workflow graph and its execution (graph/workflow.py, main.py)\<close>

text \<open>
  \<open>create_review_graph\<close> declares the graph: the entry point, one conditional edge
  (the source node, the routing function, the table from route to target) and the plain
  edges, in the order of the \<open>add_edge\<close> calls.
\<close>

record graph =
  entry_point :: node
  conditional_edges :: "(node \<times> (state \<Rightarrow> route \<times> state) \<times> (route \<times> node) list) list"
  plain_edges :: "(node \<times> node) list"

definition create_review_graph :: graph where
  "create_review_graph =
     \<lparr>entry_point = Ingestor,
      conditional_edges =
        [(Ingestor, should_continue_to_agents, [(Continue, Security), (End, END)])],
      plain_edges =
        [(Ingestor, Performance), (Ingestor, Style),
         (Security, Aggregator), (Performance, Aggregator), (Style, Aggregator),
         (Aggregator, END)]\<rparr>"

text \<open>The stage function behind each node, with the events of the call.\<close>

definition run_node :: "env \<Rightarrow> node \<Rightarrow> state \<Rightarrow> (py_exception + state) \<times> event list" where
  "run_node env n st =
     (case n of
        Ingestor \<Rightarrow> (case ingestor_node env st of (upd, evs) \<Rightarrow> (Inr upd, Ran Ingestor # evs))
      | Security \<Rightarrow> (security_node env st, [Ran Security])
      | Performance \<Rightarrow> (performance_node env st, [Ran Performance])
      | Style \<Rightarrow> (style_node env st, [Ran Style])
      | Aggregator \<Rightarrow> (Inr (aggregator_node env st), [Ran Aggregator])
      | END \<Rightarrow> (Inr Map.empty, []))"

text \<open>
  Modelled from the spec: the declaration of the review state (\<open>graph/state.py\<close>,
  with \<open>ReviewState\<close> and \<open>create_initial_state\<close>) and with it the rule by which a
  stage's returned dictionary is merged into the shared state are not among the sources.
  Section 4.1 of the specification gives the rule: every stage has a declared set of
  keys it may write; a write to any other key is ignored; the key \<open>warnings\<close> is merged
  by appending, every other key by overwriting. The declared keys of a stage are the keys
  its node sets.
\<close>

definition write_keys :: "node \<Rightarrow> string list" where
  "write_keys n =
     (case n of
        Ingestor \<Rightarrow> [''error'', ''file_tree'', ''total_files'', ''working_directory'',
                     ''source_type'', ''is_temp_directory'']
      | Security \<Rightarrow> [''security_findings'', ''warnings'']
      | Performance \<Rightarrow> [''performance_findings'', ''warnings'']
      | Style \<Rightarrow> [''style_findings'', ''warnings'']
      | Aggregator \<Rightarrow> [''final_report'', ''report_path'', ''error'']
      | END \<Rightarrow> [])"

definition append_warnings :: "json option \<Rightarrow> json \<Rightarrow> json" where
  "append_warnings old new =
     (case (old, new) of
        (Some (JList ws), JList ws') \<Rightarrow> JList (ws @ ws')
      | other \<Rightarrow> new)"

definition apply_update :: "node \<Rightarrow> state \<Rightarrow> state \<Rightarrow> state" where
  "apply_update n st upd =
     (\<lambda>k. if k \<in> set (write_keys n)
          then (case upd k of
                  None \<Rightarrow> st k
                | Some v \<Rightarrow> if k = ''warnings'' then Some (append_warnings (st k) v) else Some v)
          else st k)"

text \<open>
  The execution of a compiled graph, as the library that runs it documents it and as the
  comments of \<open>create_review_graph\<close> rely on it: the run goes in steps; the nodes of a
  step read the same state; their updates are merged when all of them have returned, in
  the order \<open>completion\<close> in which they finished; then every node of the step triggers
  the targets of its plain edges and, through its routing function, the target of its
  conditional edge; a node triggered more than once runs once, and \<open>END\<close> runs nothing.
  An exception that leaves a node ends the run. The number of steps is bounded by the
  library's recursion limit of 25.
\<close>

definition targets :: "graph \<Rightarrow> node \<Rightarrow> state \<Rightarrow> node list \<times> state" where
  "targets g n st =
     (let plain = map snd (filter (\<lambda>e. fst e = n) (plain_edges g)) in
      case map_of (conditional_edges g) n of
        None \<Rightarrow> (plain, st)
      | Some (path_fn, path_map) \<Rightarrow>
          (case path_fn st of
             (r, st') \<Rightarrow>
               ((case map_of path_map r of None \<Rightarrow> [] | Some t \<Rightarrow> [t]) @ plain, st')))"

fun route_all :: "graph \<Rightarrow> node list \<Rightarrow> state \<Rightarrow> node list \<times> state" where
  "route_all g [] st = ([], st)"
| "route_all g (n # ns) st =
     (case targets g n st of
        (ts, st') \<Rightarrow> (case route_all g ns st' of (ts', st'') \<Rightarrow> (ts @ ts', st'')))"

fun merge_updates :: "state \<Rightarrow> (node \<times> (py_exception + state) \<times> event list) list \<Rightarrow> py_exception + state" where
  "merge_updates st [] = Inr st"
| "merge_updates st ((n, Inl e, evs) # rest) = Inl e"
| "merge_updates st ((n, Inr upd, evs) # rest) = merge_updates (apply_update n st upd) rest"

definition superstep ::
  "env \<Rightarrow> (node list \<Rightarrow> node list) \<Rightarrow> graph \<Rightarrow> node list \<Rightarrow> state
     \<Rightarrow> (py_exception + node list \<times> state) \<times> event list" where
  "superstep env completion g frontier st =
     (let results = map (\<lambda>n. (n, run_node env n st)) (completion frontier);
          evs = concat (map (\<lambda>(n, r, evs). evs) results)
      in case merge_updates st results of
           Inl e \<Rightarrow> (Inl e, evs)
         | Inr merged \<Rightarrow>
             (case route_all g frontier merged of
                (ts, st') \<Rightarrow> (Inr (remdups (filter (\<lambda>t. t \<noteq> END) ts), st'), evs)))"

fun supersteps ::
  "env \<Rightarrow> (node list \<Rightarrow> node list) \<Rightarrow> graph \<Rightarrow> nat \<Rightarrow> node list \<Rightarrow> state
     \<Rightarrow> (py_exception + state) \<times> event list" where
  "supersteps env completion g fuel [] st = (Inr st, [])"
| "supersteps env completion g 0 (n # ns) st = (Inl (OtherException ''GraphRecursionError''), [])"
| "supersteps env completion g (Suc fuel) (n # ns) st =
     (case superstep env completion g (n # ns) st of
        (Inl e, evs) \<Rightarrow> (Inl e, evs)
      | (Inr (next, st'), evs) \<Rightarrow>
          (case supersteps env completion g fuel next st' of (r, evs') \<Rightarrow> (r, evs @ evs')))"

definition invoke ::
  "env \<Rightarrow> (node list \<Rightarrow> node list) \<Rightarrow> graph \<Rightarrow> state \<Rightarrow> (py_exception + state) \<times> event list" where
  "invoke env completion g initial_state = supersteps env completion g 25 [entry_point g] initial_state"

text \<open>\<open>main\<close>: the initial state and the call of the graph.\<close>

definition initial_state :: "string \<Rightarrow> string \<Rightarrow> state" where
  "initial_state path output_dir = [''input_path'' \<mapsto> JStr path, ''output_dir'' \<mapsto> JStr output_dir]"

definition run_review ::
  "env \<Rightarrow> (node list \<Rightarrow> node list) \<Rightarrow> string \<Rightarrow> string \<Rightarrow> (py_exception + state) \<times> event list" where
  "run_review env completion path output_dir =
     invoke env completion create_review_graph (initial_state path output_dir)"

text \<open>The key under which an analysis stage files its findings.\<close>

definition findings_key :: "node \<Rightarrow> string" where
  "findings_key n =
     (case n of
        Security \<Rightarrow> ''security_findings''
      | Performance \<Rightarrow> ''performance_findings''
      | Style \<Rightarrow> ''style_findings''
      | other \<Rightarrow> [])"

definition warnings_of :: "state \<Rightarrow> json list" where
  "warnings_of st = (case st ''warnings'' of Some (JList ws) \<Rightarrow> ws | other \<Rightarrow> [])"

subsection \<open>Concrete collaborators for evaluating runs\<close>

text \<open>
  A world in which the remote repository \<open>https://github.com/acme/shop\<close> is cloned
  into a fresh temporary directory that holds one file, the local directory
  \<open>/work/empty\<close> holds no file, every analysis finds nothing, and the report is
  written.
\<close>

definition sample_env :: env where
  "sample_env =
     \<lparr>env_urlparse = (\<lambda>p. Inr ([], [])),
      env_mkdtemp = ''/tmp/code_review_k3'',
      env_clone_from = (\<lambda>url dir. Cloned),
      env_resolve = (\<lambda>p. p),
      env_scan_files =
        (\<lambda>p. if p = ''/tmp/code_review_k3''
             then Inr [JDict [(''path'', JStr ''/tmp/code_review_k3/app.py'')]]
             else Inr []),
      env_analyze = (\<lambda>n wd fl. Inr []),
      env_generate_report = (\<lambda>st dir. Inr (''# Report'', ''./code_reviews/REVIEW_REPORT.md''))\<rparr>"

text \<open>
  The types the data model gives to two keys that the analysis nodes read without a
  check: \<open>warnings\<close> is a list and \<open>file_tree\<close> is a dictionary, when they are
  present.
\<close>

definition typed_warnings :: "state \<Rightarrow> bool" where
  "typed_warnings st =
     (case st ''warnings'' of None \<Rightarrow> True | Some (JList ws) \<Rightarrow> True | Some other \<Rightarrow> False)"

definition well_typed :: "state \<Rightarrow> bool" where
  "well_typed st =
     (typed_warnings st \<and>
      (case state_get st ''file_tree'' (JDict []) of JDict tree \<Rightarrow> True | other \<Rightarrow> False))"

text \<open>The label with which an analysis stage starts the warning for its own failure.\<close>

definition branch_label :: "node \<Rightarrow> string" where
  "branch_label n =
     (case n of
        Security \<Rightarrow> ''Security''
      | Performance \<Rightarrow> ''Performance''
      | Style \<Rightarrow> ''Style''
      | other \<Rightarrow> [])"

text \<open>
  The world of \<open>sample_env\<close>, except that the performance analysis raises, the
  other two analyses each report one finding, and the report lists the warnings of the
  state it is generated from and is written below the output directory.
\<close>

definition failing_env :: env where
  "failing_env =
     sample_env\<lparr>env_analyze :=
       (\<lambda>n wd fl. if n = Performance then Inl ''model timed out''
                  else Inr [JDict [(''file'', JStr ''/tmp/code_review_k3/app.py''),
                                   (''issue_type'', JStr (branch_label n))]]),
      env_generate_report :=
       (\<lambda>st dir. case dir of
                    JStr d \<Rightarrow>
                      Inr (''# Report. Warnings:'' @
                             concat (map (\<lambda>w. case w of JStr m \<Rightarrow> '' '' @ m | other \<Rightarrow> [])
                                         (warnings_of st)),
                           d @ ''/REVIEW_REPORT.md'')
                  | other \<Rightarrow> Inl ''output directory is not a path'')\<rparr>"

text \<open>
  A state as the ingestion of the sample repository leaves it: a working directory and
  a file tree with one file.
\<close>

definition ingested_state :: state where
  "ingested_state =
     [''input_path'' \<mapsto> JStr ''https://github.com/acme/shop'',
      ''working_directory'' \<mapsto> JStr ''/tmp/code_review_k3'',
      ''file_tree'' \<mapsto>
         JDict [(''files'', JList [JDict [(''path'', JStr ''/tmp/code_review_k3/app.py'')]]),
                (''total_files'', JNum 1)],
      ''total_files'' \<mapsto> JNum 1]"

section \<open>Properties of the structured extractor\<close>

lemma json_loads_only_decode_error: "json_loads s \<noteq> Inl (OtherException m)"
  by (simp add: json_loads_def split: option.splits prod.splits)

text \<open>
  When the strict parser raises nothing but its \<open>JSONDecodeError\<close>, the extractor
  returns a value, and the value is the empty instance of the expected shape when every
  text handed to the strict parser was rejected.
\<close>

lemma safe_parse_json_returns_on_decode_errors:
  assumes "\<forall>s m. loads s \<noteq> Inl (OtherException m)"
  shows "(\<exists>v. safe_parse_json loads text ty = Inr v) \<and>
         ((\<forall>a \<in> set (snd (safe_parse_json_trace loads text ty)). \<forall>v. loads a \<noteq> Inr v) \<longrightarrow>
            safe_parse_json loads text ty = Inr (empty_instance ty))"
  using assms
  by (auto simp: safe_parse_json_def safe_parse_json_trace_def parse_located_def
           split: sum.splits py_exception.splits option.splits)

text \<open>
  Claim C7. On the truncated text \<open>[{"a":1},{"b":2\<close> with expected shape list, the
  strict parse of the candidate fails, and the extractor returns a list that contains
  the record \<open>{"a":1}\<close>. The strict parser is called exactly twice: on the candidate,
  and once more on the repaired text, which is the candidate without trailing white
  space and commas, followed by one closing brace (two opening braces against one
  closing brace) and the closing bracket of the list.
\<close>

theorem truncated_list_repaired:
  assumes "loads ''[{\"a\":1},{\"b\":2'' = Inl JSONDecodeError"
      and "loads ''[{\"a\":1},{\"b\":2}]'' = Inr (JList [JDict [(''a'', JNum 1)], JDict [(''b'', JNum 2)]])"
  shows "\<exists>records.
           safe_parse_json loads (Text ''[{\"a\":1},{\"b\":2'') TList = Inr (JList records) \<and>
           JDict [(''a'', JNum 1)] \<in> set records \<and>
           snd (safe_parse_json_trace loads (Text ''[{\"a\":1},{\"b\":2'') TList) =
             [''[{\"a\":1},{\"b\":2'',
              rstrip_comma (rstrip ''[{\"a\":1},{\"b\":2'') @ replicate (2 - 1) CHR ''}'' @ '']''] \<and>
           count_chr CHR ''{'' (rstrip_comma (rstrip ''[{\"a\":1},{\"b\":2'')) = 2 \<and>
           count_chr CHR ''}'' (rstrip_comma (rstrip ''[{\"a\":1},{\"b\":2'')) = 1"
proof -
  have loc: "locate_json ''[{\"a\":1},{\"b\":2'' TList = ''[{\"a\":1},{\"b\":2''"
    by code_simp
  have rep: "repair TList ''[{\"a\":1},{\"b\":2'' = Some ''[{\"a\":1},{\"b\":2}]''"
    by code_simp
  have r: "rstrip_comma (rstrip ''[{\"a\":1},{\"b\":2'') = ''[{\"a\":1},{\"b\":2''"
    by code_simp
  have c1: "count_chr CHR ''{'' ''[{\"a\":1},{\"b\":2'' = 2" by code_simp
  have c2: "count_chr CHR ''}'' ''[{\"a\":1},{\"b\":2'' = 1" by code_simp
  have tr: "safe_parse_json_trace loads (Text ''[{\"a\":1},{\"b\":2'') TList =
      (Inr (JList [JDict [(''a'', JNum 1)], JDict [(''b'', JNum 2)]]),
       [''[{\"a\":1},{\"b\":2'', ''[{\"a\":1},{\"b\":2}]''])"
    unfolding safe_parse_json_trace_def parse_located_def
    by (simp add: loc rep assms del: repair.simps)
  show ?thesis
    unfolding safe_parse_json_def tr r c1 c2 by simp
qed

theorem truncated_list_repaired_witness:
  "json_loads ''[{\"a\":1},{\"b\":2'' = Inl JSONDecodeError \<and>
   json_loads ''[{\"a\":1},{\"b\":2}]'' = Inr (JList [JDict [(''a'', JNum 1)], JDict [(''b'', JNum 2)]]) \<and>
   (\<exists>records. safe_parse_json json_loads (Text ''[{\"a\":1},{\"b\":2'') TList = Inr (JList records) \<and>
       JDict [(''a'', JNum 1)] \<in> set records)"
proof -
  have a: "json_loads ''[{\"a\":1},{\"b\":2'' = Inl JSONDecodeError" by code_simp
  have b: "json_loads ''[{\"a\":1},{\"b\":2}]'' = Inr (JList [JDict [(''a'', JNum 1)], JDict [(''b'', JNum 2)]])"
    by code_simp
  from truncated_list_repaired [OF a b] a b show ?thesis by blast
qed

lemma rfind_chr_snoc: "rfind_chr c (xs @ [c]) = Some (length xs)"
  by (induction xs) auto

lemma rfind_chr_last: "t \<noteq> [] \<Longrightarrow> last t = c \<Longrightarrow> rfind_chr c t = Some (length t - 1)"
  by (cases t rule: rev_cases) (auto simp: rfind_chr_snoc)

lemma find_chr_hd: "t \<noteq> [] \<Longrightarrow> hd t = c \<Longrightarrow> find_chr c t = Some 0"
  by (cases t) (auto simp: find_chr_def)

lemma lstrip_id: "t \<noteq> [] \<Longrightarrow> \<not> is_space (hd t) \<Longrightarrow> lstrip t = t"
  by (cases t) (auto simp: lstrip_def)

lemma rstrip_id: "t \<noteq> [] \<Longrightarrow> \<not> is_space (last t) \<Longrightarrow> rstrip t = t"
  by (cases t rule: rev_cases) (auto simp: rstrip_def)

lemma strip_id: "t \<noteq> [] \<Longrightarrow> \<not> is_space (hd t) \<Longrightarrow> \<not> is_space (last t) \<Longrightarrow> strip t = t"
  by (simp add: strip_def lstrip_id rstrip_id)

lemma locate_json_bracketed:
  assumes "fenced ''```json'' t = None" and "fenced ''```'' t = None"
      and "t \<noteq> []"
      and "(ty = TList \<and> hd t = CHR ''['' \<and> last t = CHR '']'') \<or>
           (ty = TDict \<and> hd t = CHR ''{'' \<and> last t = CHR ''}'')"
  shows "locate_json t ty = t"
proof -
  have sp: "\<not> is_space (hd t)" "\<not> is_space (last t)"
    using assms(4) by (auto simp: is_space_def)
  have len: "length t \<ge> 2"
    using assms(3,4) by (cases t; cases "tl t") auto
  have st: "start_index ty t = Some 0"
    using assms(3,4) by (auto simp: find_chr_hd)
  have en: "end_index ty t = Some (length t - 1)"
    using assms(3,4) by (auto simp: rfind_chr_last)
  show ?thesis
    using len by (simp add: locate_json_def assms(1,2) st en slice_def strip_id [OF assms(3) sp])
qed

lemma find_sub_absent:
  assumes "pat \<noteq> []" and "hd pat \<notin> set s"
  shows "find_sub pat s = None"
  using assms by (induction s) (auto simp: prefix_def Cons_eq_append_conv)

lemma rfind_chr_absent: "c \<notin> set s \<Longrightarrow> rfind_chr c s = None"
  by (induction s) auto

lemma fenced_absent:
  assumes "opener \<noteq> []" and "hd opener \<notin> set text"
  shows "fenced opener text = None"
  using assms by (simp add: fenced_def find_sub_absent)

lemma locate_json_empty: "locate_json [] ty = []"
  by (cases ty) (simp_all add: locate_json_def fenced_def find_chr_def strip_def lstrip_def rstrip_def)

text \<open>
  A text of \<open>n\<close> opening brackets has no fence and no closing bracket: the candidate
  is the whole text, and the guarded decoder raises on it when \<open>n\<close> exceeds the limit.
\<close>

lemma locate_json_open_brackets:
  assumes "0 < n"
  shows "locate_json (replicate n CHR ''['') TList = replicate n CHR ''[''"
proof -
  let ?t = "replicate n CHR ''[''"
  have ne: "?t \<noteq> []" using assms by simp
  have hd: "hd ?t = CHR ''[''" using assms by (cases n) simp_all
  have la: "last ?t = CHR ''[''" using assms by simp
  have f1: "fenced ''```json'' ?t = None" by (rule fenced_absent) simp_all
  have f2: "fenced ''```'' ?t = None" by (rule fenced_absent) simp_all
  have st: "find_chr CHR ''['' ?t = Some 0" using find_chr_hd [OF ne hd] .
  have en: "rfind_chr CHR '']'' ?t = None" by (simp add: rfind_chr_absent)
  have sp: "strip ?t = ?t"
    by (rule strip_id [OF ne]) (simp_all add: hd la is_space_def)
  show ?thesis by (simp add: locate_json_def f1 f2 st en sp del: replicate.simps)
qed

lemma guarded_loads_open_brackets:
  assumes "limit < n"
  shows "guarded_loads limit (replicate n CHR ''['') = Inl (OtherException ''RecursionError'')"
proof -
  have "skip_ws (replicate n CHR ''['') = replicate n CHR ''[''"
    using assms by (cases n) (simp_all add: skip_ws_def is_json_ws_def)
  moreover have "takeWhile (\<lambda>c. c = CHR ''['') (replicate n CHR ''['') = replicate n CHR ''[''"
    by (simp add: takeWhile_eq_all_conv)
  ultimately show ?thesis using assms by (simp add: guarded_loads_def)
qed

text \<open>
  Claim C5: the code departs from it. The first strict parse is guarded by
  \<open>except json.JSONDecodeError\<close> alone. Whenever the strict parser raises any other
  exception on the candidate text, that exception leaves \<open>safe_parse_json\<close>: no value
  is returned, the empty instance included, and the strict parser has been called once,
  on the candidate. The strict parser does so on a text of 100000 opening brackets, whose
  nesting exceeds the recursion limit of 1000.
\<close>

theorem first_parse_exception_escapes:
  assumes "locate_json (joined text) ty \<noteq> []"
      and "loads (locate_json (joined text) ty) = Inl (OtherException m)"
  shows "safe_parse_json loads text ty = Inl (OtherException m) \<and>
         snd (safe_parse_json_trace loads text ty) = [locate_json (joined text) ty]"
proof -
  have "\<not> is_empty_text text"
    using assms(1) by (cases "text") (auto simp: locate_json_empty)
  with assms show ?thesis
    by (simp add: safe_parse_json_def safe_parse_json_trace_def parse_located_def)
qed

theorem first_parse_exception_escapes_witness:
  "locate_json (joined (Text (replicate 100000 CHR ''[''))) TList = replicate 100000 CHR ''['' \<and>
   replicate 100000 CHR ''['' \<noteq> [] \<and>
   guarded_loads 1000 (replicate 100000 CHR ''['') = Inl (OtherException ''RecursionError'') \<and>
   safe_parse_json (guarded_loads 1000) (Text (replicate 100000 CHR ''['')) TList
     = Inl (OtherException ''RecursionError'') \<and>
   snd (safe_parse_json_trace (guarded_loads 1000) (Text (replicate 100000 CHR ''['')) TList)
     = [replicate 100000 CHR ''['']"
proof -
  let ?t = "replicate 100000 CHR ''[''"
  have loc: "locate_json (joined (Text ?t)) TList = ?t"
    using locate_json_open_brackets [of 100000] by simp
  have ne: "?t \<noteq> []" by simp
  have g: "guarded_loads 1000 ?t = Inl (OtherException ''RecursionError'')"
    by (rule guarded_loads_open_brackets) simp
  have h1: "locate_json (joined (Text ?t)) TList \<noteq> []" unfolding loc by (rule ne)
  have h2: "guarded_loads 1000 (locate_json (joined (Text ?t)) TList)
              = Inl (OtherException ''RecursionError'')"
    unfolding loc by (rule g)
  from first_parse_exception_escapes
         [of "Text ?t" TList "guarded_loads 1000" "''RecursionError''", OF h1 h2] loc ne g
  show ?thesis by simp
qed

text \<open>
  Claim C6, as stated, fails. The extractor, asked for a list, takes the record
  \<open>{"a":[1]}\<close> out of a fenced block and returns it. Run again on the structured text
  of that record, it finds no fence, cuts the text from the first \<open>[\<close> to the last
  \<open>]\<close> and returns the list \<open>[1]\<close>.
\<close>

theorem idempotence_counterexample:
  "safe_parse_json json_loads (Text ''```json {\"a\":[1]} ```'') TList
     = Inr (JDict [(''a'', JList [JNum 1])]) \<and>
   json_loads ''{\"a\": [1]}'' = Inr (JDict [(''a'', JList [JNum 1])]) \<and>
   safe_parse_json json_loads (Text ''{\"a\": [1]}'') TList = Inr (JList [JNum 1]) \<and>
   safe_parse_json json_loads (Text ''{\"a\": [1]}'') TList
     \<noteq> safe_parse_json json_loads (Text ''```json {\"a\":[1]} ```'') TList"
proof -
  have a: "safe_parse_json json_loads (Text ''```json {\"a\":[1]} ```'') TList
             = Inr (JDict [(''a'', JList [JNum 1])])"
    by code_simp
  have b: "json_loads ''{\"a\": [1]}'' = Inr (JDict [(''a'', JList [JNum 1])])"
    by code_simp
  have c: "safe_parse_json json_loads (Text ''{\"a\": [1]}'') TList = Inr (JList [JNum 1])"
    by code_simp
  show ?thesis unfolding a b c by simp
qed

text \<open>
  Claim C6, amended. Let the extractor return the value \<open>v\<close> on some input, and let
  \<open>t\<close> be a structured text of \<open>v\<close> (the strict parser reads \<open>t\<close> as \<open>v\<close>) that
  has no fenced block and is delimited by the brackets of the expected shape, \<open>[\<close> and
  \<open>]\<close> for a list, \<open>{\<close> and \<open>}\<close> for a record. Then the extractor run on \<open>t\<close>
  returns the same value.
\<close>

theorem extractor_fixed_on_structured_text:
  assumes "safe_parse_json loads X ty = Inr v"
      and "loads t = Inr v"
      and "fenced ''```json'' t = None" and "fenced ''```'' t = None"
      and "t \<noteq> []"
      and "(ty = TList \<and> hd t = CHR ''['' \<and> last t = CHR '']'') \<or>
           (ty = TDict \<and> hd t = CHR ''{'' \<and> last t = CHR ''}'')"
  shows "safe_parse_json loads (Text t) ty = safe_parse_json loads X ty"
  using assms(1,2,5)
  by (simp add: safe_parse_json_def safe_parse_json_trace_def parse_located_def
        locate_json_bracketed [OF assms(3,4,5,6)])

theorem extractor_fixed_on_structured_text_witness:
  "safe_parse_json json_loads (Text ''[{\"a\":1},{\"b\":2'') TList
     = Inr (JList [JDict [(''a'', JNum 1)], JDict [(''b'', JNum 2)]]) \<and>
   json_loads ''[{\"a\": 1}, {\"b\": 2}]''
     = Inr (JList [JDict [(''a'', JNum 1)], JDict [(''b'', JNum 2)]]) \<and>
   fenced ''```json'' ''[{\"a\": 1}, {\"b\": 2}]'' = None \<and>
   fenced ''```'' ''[{\"a\": 1}, {\"b\": 2}]'' = None \<and>
   safe_parse_json json_loads (Text ''[{\"a\": 1}, {\"b\": 2}]'') TList
     = safe_parse_json json_loads (Text ''[{\"a\":1},{\"b\":2'') TList"
proof -
  have a: "safe_parse_json json_loads (Text ''[{\"a\":1},{\"b\":2'') TList
             = Inr (JList [JDict [(''a'', JNum 1)], JDict [(''b'', JNum 2)]])"
    by code_simp
  have b: "json_loads ''[{\"a\": 1}, {\"b\": 2}]''
             = Inr (JList [JDict [(''a'', JNum 1)], JDict [(''b'', JNum 2)]])"
    by code_simp
  have c: "fenced ''```json'' ''[{\"a\": 1}, {\"b\": 2}]'' = None" by code_simp
  have d: "fenced ''```'' ''[{\"a\": 1}, {\"b\": 2}]'' = None" by code_simp
  have e: "''[{\"a\": 1}, {\"b\": 2}]'' \<noteq> []" by simp
  have f: "(TList = TList \<and> hd ''[{\"a\": 1}, {\"b\": 2}]'' = CHR ''[''
              \<and> last ''[{\"a\": 1}, {\"b\": 2}]'' = CHR '']'') \<or>
           (TList = TDict \<and> hd ''[{\"a\": 1}, {\"b\": 2}]'' = CHR ''{''
              \<and> last ''[{\"a\": 1}, {\"b\": 2}]'' = CHR ''}'')"
    by simp
  from extractor_fixed_on_structured_text [OF a b c d e f] a b c d show ?thesis by blast
qed

section \<open>Properties of the validation of findings\<close>

lemma validate_append: "validate flds (xs @ ys) = validate flds xs @ validate flds ys"
  by (induction flds xs rule: validate.induct) auto

lemma validate_record_kept: "JDict d \<in> set xs \<Longrightarrow> fill flds d \<in> set (validate flds xs)"
  by (induction flds xs rule: validate.induct) auto

lemma validate_length:
  "length (validate flds xs) = length (filter (\<lambda>x. \<exists>d. x = JDict d) xs)"
  by (induction flds xs rule: validate.induct) auto

lemma fill_lookup:
  "distinct (map fst flds) \<Longrightarrow> (k, dflt) \<in> set flds \<Longrightarrow>
     \<exists>out. fill flds d = JDict out \<and> map fst out = map fst flds \<and>
           map_of out k = Some (dict_get d k dflt)"
proof -
  assume dist: "distinct (map fst flds)" and mem: "(k, dflt) \<in> set flds"
  let ?out = "map (\<lambda>(k, dflt). (k, dict_get d k dflt)) flds"
  have keys: "map fst ?out = map fst flds"
    by (induction flds) auto
  have "(k, dict_get d k dflt) \<in> set ?out"
    using mem by force
  moreover have "distinct (map fst ?out)"
    unfolding keys by (rule dist)
  ultimately have "map_of ?out k = Some (dict_get d k dflt)"
    by (rule map_of_is_SomeI [rotated])
  with keys show ?thesis
    unfolding fill_def by blast
qed

text \<open>
  Claim C9, as stated, fails: an element of the parsed list that is not a record is
  passed over without a message. The response \<open>[1, {"line": 7}]\<close> is parsed to a
  list of two elements, and the validated list has one.
\<close>

theorem non_record_element_dropped:
  "safe_parse_json json_loads (Text ''[1, {\"line\": 7}]'') TList
     = Inr (JList [JNum 1, JDict [(''line'', JNum 7)]]) \<and>
   security_parse_llm_response json_loads (Text ''[1, {\"line\": 7}]'') ''app.py''
     = Inr [JDict [(''file'', JStr ''app.py''), (''line'', JNum 7), (''severity'', JStr ''MEDIUM''),
                   (''confidence'', JStr ''MEDIUM''), (''issue_type'', JStr ''SECURITY_ISSUE''),
                   (''description'', JStr []), (''recommendation'', JStr []),
                   (''cwe_id'', JNull), (''owasp_category'', JNull)]]"
proof -
  have a: "safe_parse_json json_loads (Text ''[1, {\"line\": 7}]'') TList
             = Inr (JList [JNum 1, JDict [(''line'', JNum 7)]])"
    by code_simp
  show ?thesis
    unfolding security_parse_llm_response_def parse_llm_response_def a
    by (simp add: as_list_def fill_def security_fields_def dict_get_def)
qed

lemma validated_parts:
  assumes "flds \<in> {security_fields file_path, performance_fields file_path, style_fields file_path}"
  shows "length (validate flds xs) = length (filter (\<lambda>x. \<exists>d. x = JDict d) xs)"
    and "\<forall>d. JDict d \<in> set xs \<longrightarrow> fill flds d \<in> set (validate flds xs)"
    and "\<forall>d. \<forall>(k, dflt) \<in> set flds.
           \<exists>out. fill flds d = JDict out \<and> map fst out = map fst flds \<and>
                 map_of out k = Some (dict_get d k dflt)"
    and "(''file'', JStr file_path) \<in> set flds"
    and "(''description'', JStr []) \<in> set flds"
    and "(''recommendation'', JStr []) \<in> set flds"
    and "(''severity'', JStr ''MEDIUM'') \<in> set flds \<or> (''impact'', JStr ''MEDIUM'') \<in> set flds"
    and "(''issue_type'', JStr ''SECURITY_ISSUE'') \<in> set flds \<or>
         (''issue_type'', JStr ''PERFORMANCE_ISSUE'') \<in> set flds \<or>
         (''issue_type'', JStr ''STYLE_ISSUE'') \<in> set flds"
proof -
  show "length (validate flds xs) = length (filter (\<lambda>x. \<exists>d. x = JDict d) xs)"
    by (rule validate_length)
  show "\<forall>d. JDict d \<in> set xs \<longrightarrow> fill flds d \<in> set (validate flds xs)"
    by (simp add: validate_record_kept)
  have dist: "distinct (map fst flds)"
    using assms by (auto simp: security_fields_def performance_fields_def style_fields_def)
  show "\<forall>d. \<forall>(k, dflt) \<in> set flds.
           \<exists>out. fill flds d = JDict out \<and> map fst out = map fst flds \<and>
                 map_of out k = Some (dict_get d k dflt)"
    using fill_lookup [OF dist] by blast
  show "(''file'', JStr file_path) \<in> set flds"
    using assms by (auto simp: security_fields_def performance_fields_def style_fields_def)
  show "(''description'', JStr []) \<in> set flds"
    using assms by (auto simp: security_fields_def performance_fields_def style_fields_def)
  show "(''recommendation'', JStr []) \<in> set flds"
    using assms by (auto simp: security_fields_def performance_fields_def style_fields_def)
  show "(''severity'', JStr ''MEDIUM'') \<in> set flds \<or> (''impact'', JStr ''MEDIUM'') \<in> set flds"
    using assms by (auto simp: security_fields_def performance_fields_def style_fields_def)
  show "(''issue_type'', JStr ''SECURITY_ISSUE'') \<in> set flds \<or>
         (''issue_type'', JStr ''PERFORMANCE_ISSUE'') \<in> set flds \<or>
         (''issue_type'', JStr ''STYLE_ISSUE'') \<in> set flds"
    using assms by (auto simp: security_fields_def performance_fields_def style_fields_def)
qed


text \<open>
  Claim C9, amended. For each of the three agents, every element of the parsed list that
  is a record has its validated record in the output, which has as many records as the
  parsed list has record elements; elements that are not records are skipped. A validated
  record has exactly the agent's keys, and under each key the element's own value when it
  has the key and the default otherwise: the analysed file's path for \<open>file\<close>,
  \<open>MEDIUM\<close> for severity or impact, the category's placeholder for \<open>issue_type\<close>,
  the empty string for \<open>description\<close> and \<open>recommendation\<close>.
\<close>

theorem record_findings_validated:
  assumes "flds \<in> {security_fields file_path, performance_fields file_path, style_fields file_path}"
  shows "length (validate flds xs) = length (filter (\<lambda>x. \<exists>d. x = JDict d) xs) \<and>
         (\<forall>d. JDict d \<in> set xs \<longrightarrow> fill flds d \<in> set (validate flds xs)) \<and>
         (\<forall>d. \<forall>(k, dflt) \<in> set flds.
            \<exists>out. fill flds d = JDict out \<and> map fst out = map fst flds \<and>
                  map_of out k = Some (dict_get d k dflt)) \<and>
         (''file'', JStr file_path) \<in> set flds \<and>
         (''description'', JStr []) \<in> set flds \<and>
         (''recommendation'', JStr []) \<in> set flds \<and>
         ((''severity'', JStr ''MEDIUM'') \<in> set flds \<or> (''impact'', JStr ''MEDIUM'') \<in> set flds) \<and>
         ((''issue_type'', JStr ''SECURITY_ISSUE'') \<in> set flds \<or>
          (''issue_type'', JStr ''PERFORMANCE_ISSUE'') \<in> set flds \<or>
          (''issue_type'', JStr ''STYLE_ISSUE'') \<in> set flds)"
  by (intro conjI validated_parts [OF assms])

theorem record_findings_validated_witness:
  "performance_fields ''app.py''
     \<in> {security_fields ''app.py'', performance_fields ''app.py'', style_fields ''app.py''} \<and>
   JDict [(''line'', JNum 7)] \<in> set [JNum 1, JDict [(''line'', JNum 7)]] \<and>
   fill (performance_fields ''app.py'') [(''line'', JNum 7)]
     \<in> set (validate (performance_fields ''app.py'') [JNum 1, JDict [(''line'', JNum 7)]]) \<and>
   (''impact'', JStr ''MEDIUM'') \<in> set (performance_fields ''app.py'') \<and>
   length (validate (performance_fields ''app.py'') [JNum 1, JDict [(''line'', JNum 7)]]) = 1"
proof -
  have m: "performance_fields ''app.py''
     \<in> {security_fields ''app.py'', performance_fields ''app.py'', style_fields ''app.py''}"
    by simp
  have e: "JDict [(''line'', JNum 7)] \<in> set [JNum 1, JDict [(''line'', JNum 7)]]" by simp
  have i: "(''impact'', JStr ''MEDIUM'') \<in> set (performance_fields ''app.py'')"
    by (simp add: performance_fields_def)
  note v = record_findings_validated [OF m, of "[JNum 1, JDict [(''line'', JNum 7)]]"]
  from v have "length (validate (performance_fields ''app.py'') [JNum 1, JDict [(''line'', JNum 7)]])
      = length (filter (\<lambda>x. \<exists>d. x = JDict d) [JNum 1, JDict [(''line'', JNum 7)]])"
    by blast
  then have l: "length (validate (performance_fields ''app.py'') [JNum 1, JDict [(''line'', JNum 7)]]) = 1"
    by simp
  from v e have k: "fill (performance_fields ''app.py'') [(''line'', JNum 7)]
     \<in> set (validate (performance_fields ''app.py'') [JNum 1, JDict [(''line'', JNum 7)]])"
    by blast
  from m e k i l show ?thesis by blast
qed

section \<open>Properties of the git operations\<close>

lemma cleanup_repository_returns:
  assumes "repo_path \<notin> set denied"
  shows "fst (cleanup_repository tmp denied fs repo_path force) = Inr ()"
  using assms by (simp add: cleanup_repository_def path_exists_def Let_def)

lemma cleanup_repository_raises:
  assumes "repo_path \<in> set denied"
  shows "cleanup_repository tmp denied fs repo_path force
           = (Inl (OtherException ''PermissionError''), fs, [])"
  using assms by (simp add: cleanup_repository_def path_exists_def)

lemma cleanup_repository_twice:
  assumes "cleanup_repository tmp denied fs repo_path force = (r, fs', logs)"
  shows "fst (snd (cleanup_repository tmp denied fs' repo_path force)) = fs'"
  using assms
  by (auto simp: cleanup_repository_def path_exists_def Let_def rmtree_def below_def
           split: if_splits)

text \<open>
  Claim C8: the code departs from it. With the temporary root \<open>/tmp\<close>, the directory
  \<open>/tmp-reviews/repo\<close> does not reside under the root, yet its name starts with the
  characters of the root's name, which is all that \<open>cleanup_repository\<close> tests: without
  \<open>force\<close> the directory and the file in it are deleted.
\<close>

theorem cleanup_deletes_outside_temp_root:
  "\<not> below ''/tmp'' ''/tmp-reviews/repo'' \<and>
   cleanup_repository ''/tmp'' []
     [''/tmp'', ''/tmp-reviews/repo'', ''/tmp-reviews/repo/app.py'', ''/home/dev/notes'']
     ''/tmp-reviews/repo'' False
   = (Inr (), [''/tmp'', ''/home/dev/notes''],
      [Info ''Cleaning up repository: /tmp-reviews/repo'', Info ''Cleanup completed''])"
  by (simp add: below_def cleanup_repository_def path_exists_def rmtree_def Let_def)

lemma ingest_git_events:
  "\<exists>r tds evs. ingest_git_repository env p t = (r, tds, Clone p # evs)"
  by (auto simp: ingest_git_repository_def clone_repository_def Let_def
           split: prod.splits sum.splits clone_outcome.splits if_splits)

lemma ingest_local_events:
  "\<exists>r tds. ingest_local_directory env p t = (r, tds, [Scan (env_resolve env p)])"
  by (auto simp: ingest_local_directory_def Let_def split: sum.splits)

lemma ingest_clones_git_url:
  assumes "is_git_url (env_urlparse env) path"
  shows "\<exists>evs. snd (snd (ingest env path tds)) = Clone path # evs"
proof -
  obtain r t evs where "ingest_git_repository env path tds = (r, t, Clone path # evs)"
    using ingest_git_events by blast
  with assms show ?thesis
    by (cases r) (simp_all add: ingest_def)
qed

lemma ingest_scans_other:
  assumes "\<not> is_git_url (env_urlparse env) path"
  shows "snd (snd (ingest env path tds)) = [Scan (env_resolve env path)]"
proof -
  obtain r t where "ingest_local_directory env path tds = (r, t, [Scan (env_resolve env path)])"
    using ingest_local_events by blast
  with assms show ?thesis
    by (cases r) (simp_all add: ingest_def)
qed

text \<open>
  Claim C10. A path that ends in \<open>.git\<close>, in any letter case, or that \<open>urlparse\<close>
  splits into a scheme and a network location that are both non-empty, is a git URL for
  \<open>is_git_url\<close>, and \<open>ingest\<close> then starts by cloning it, whatever the file system
  holds under that name. When \<open>ingest\<close> does not clone, it scans the resolved local
  path, and then the input matched none of the seven patterns and is no URL with scheme
  and network location.
\<close>

theorem git_url_is_cloned:
  "((suffix ''.git'' (map lower path) \<or>
      (\<exists>scheme netloc. env_urlparse env path = Inr (scheme, netloc) \<and> scheme \<noteq> [] \<and> netloc \<noteq> []))
     \<longrightarrow> is_git_url (env_urlparse env) path \<and>
         (\<exists>evs. snd (snd (ingest env path tds)) = Clone path # evs)) \<and>
   (Clone path \<notin> set (snd (snd (ingest env path tds)))
     \<longrightarrow> snd (snd (ingest env path tds)) = [Scan (env_resolve env path)] \<and>
         \<not> list_ex (\<lambda>b. b) (git_patterns path) \<and>
         \<not> (\<exists>scheme netloc. env_urlparse env path = Inr (scheme, netloc) \<and> scheme \<noteq> [] \<and> netloc \<noteq> []) \<and>
         \<not> is_git_url (env_urlparse env) path)"
proof (intro conjI impI)
  assume h: "suffix ''.git'' (map lower path) \<or>
      (\<exists>scheme netloc. env_urlparse env path = Inr (scheme, netloc) \<and> scheme \<noteq> [] \<and> netloc \<noteq> [])"
  then show g: "is_git_url (env_urlparse env) path"
    by (auto simp: is_git_url_def git_patterns_def Let_def)
  then show "\<exists>evs. snd (snd (ingest env path tds)) = Clone path # evs"
    by (rule ingest_clones_git_url)
next
  assume n: "Clone path \<notin> set (snd (snd (ingest env path tds)))"
  show ng: "\<not> is_git_url (env_urlparse env) path"
  proof
    assume "is_git_url (env_urlparse env) path"
    then obtain evs where "snd (snd (ingest env path tds)) = Clone path # evs"
      using ingest_clones_git_url by blast
    with n show False by simp
  qed
  then show "snd (snd (ingest env path tds)) = [Scan (env_resolve env path)]"
    by (rule ingest_scans_other)
  from ng show "\<not> list_ex (\<lambda>b. b) (git_patterns path)"
    by (auto simp: is_git_url_def split: if_splits)
  from ng show "\<not> (\<exists>scheme netloc. env_urlparse env path = Inr (scheme, netloc) \<and> scheme \<noteq> [] \<and> netloc \<noteq> [])"
    by (auto simp: is_git_url_def split: if_splits)
qed

theorem git_url_is_cloned_witness:
  "suffix ''.git'' (map lower ''Backup.GIT'') \<and>
   env_scan_files sample_env (env_resolve sample_env ''Backup.GIT'') = Inr [] \<and>
   is_git_url (env_urlparse sample_env) ''Backup.GIT'' \<and>
   (\<exists>evs. snd (snd (ingest sample_env ''Backup.GIT'' [])) = Clone ''Backup.GIT'' # evs) \<and>
   Clone ''/work/empty'' \<notin> set (snd (snd (ingest sample_env ''/work/empty'' []))) \<and>
   snd (snd (ingest sample_env ''/work/empty'' [])) = [Scan ''/work/empty'']"
proof -
  have s: "suffix ''.git'' (map lower ''Backup.GIT'')" by code_simp
  have d: "env_scan_files sample_env (env_resolve sample_env ''Backup.GIT'') = Inr []"
    by (simp add: sample_env_def)
  have n: "Clone ''/work/empty'' \<notin> set (snd (snd (ingest sample_env ''/work/empty'' [])))"
    by code_simp
  have r: "env_resolve sample_env ''/work/empty'' = ''/work/empty''"
    by (simp add: sample_env_def)
  from git_url_is_cloned [of "''Backup.GIT''" sample_env "[]"] s
  have a: "is_git_url (env_urlparse sample_env) ''Backup.GIT'' \<and>
           (\<exists>evs. snd (snd (ingest sample_env ''Backup.GIT'' [])) = Clone ''Backup.GIT'' # evs)"
    by blast
  from git_url_is_cloned [of "''/work/empty''" sample_env "[]"] n r
  have b: "snd (snd (ingest sample_env ''/work/empty'' [])) = [Scan ''/work/empty'']"
    by simp
  from s d a n b show ?thesis by blast
qed
section \<open>Properties of the workflow\<close>

lemma targets_ingestor:
  "targets create_review_graph Ingestor st =
     (case should_continue_to_agents st of
        (Continue, st') \<Rightarrow> ([Security, Performance, Style], st')
      | (End, st') \<Rightarrow> ([END, Performance, Style], st'))"
  by (simp add: targets_def create_review_graph_def split: prod.splits route.splits)

lemma targets_branch:
  "n \<in> {Security, Performance, Style} \<Longrightarrow> targets create_review_graph n st = ([Aggregator], st)"
  by (auto simp: targets_def create_review_graph_def)

lemma targets_aggregator: "targets create_review_graph Aggregator st = ([END], st)"
  by (simp add: targets_def create_review_graph_def)


lemma typed_warnings_iff:
  "typed_warnings st = (st ''warnings'' = None \<or> (\<exists>ws. st ''warnings'' = Some (JList ws)))"
  by (auto simp: typed_warnings_def split: option.splits json.splits)

lemma well_typed_iff:
  "well_typed st =
     (typed_warnings st \<and> (\<exists>tree. state_get st ''file_tree'' (JDict []) = JDict tree))"
  by (auto simp: well_typed_def split: json.splits)


lemma route_all_branches:
  "route_all create_review_graph [Security, Performance, Style] st =
     ([Aggregator, Aggregator, Aggregator], st)"
  by (simp add: targets_branch)

lemma three_orders:
  assumes "mset xs = mset [a, b, c]"
  shows "xs \<in> {[a, b, c], [a, c, b], [b, a, c], [b, c, a], [c, a, b], [c, b, a]}"
proof -
  have "length xs = 3"
    using assms mset_eq_length by fastforce
  then obtain x y z where xs: "xs = [x, y, z]"
    by (auto simp: length_Suc_conv numeral_3_eq_3)
  have "set xs = {a, b, c}" using assms mset_eq_setD by fastforce
  with xs assms show ?thesis
    by (auto simp: add_eq_conv_ex)
qed

lemma warnings_of_apply:
  assumes "n \<in> {Security, Performance, Style}" and "typed_warnings u"
  shows "warnings_of (apply_update n s u) = warnings_of s @ warnings_of u"
  using assms
  by (auto simp: typed_warnings_iff warnings_of_def apply_update_def write_keys_def append_warnings_def
           split: option.splits json.splits)

lemma findings_apply:
  assumes "n \<in> {Security, Performance, Style}" and "b \<in> {Security, Performance, Style}"
  shows "apply_update n s u (findings_key b) =
           (if n = b then (case u (findings_key b) of None \<Rightarrow> s (findings_key b) | Some v \<Rightarrow> Some v)
            else s (findings_key b))"
  using assms
  by (auto simp: apply_update_def write_keys_def findings_key_def split: option.splits)

lemma analysis_failed_eq:
  assumes "typed_warnings st"
  shows "analysis_failed st key label msg =
           Inr [key \<mapsto> JList [],
                ''warnings'' \<mapsto> JList (warnings_of st @ [JStr (label @ '' analysis failed: '' @ msg)])]"
  using assms
  by (auto simp: analysis_failed_def typed_warnings_iff state_get_def warnings_of_def)

lemma security_node_returns:
  assumes "well_typed st"
  shows "\<exists>u. security_node env st = Inr u \<and> u ''security_findings'' \<noteq> None \<and> typed_warnings u"
proof -
  from assms obtain tree where t: "state_get st ''file_tree'' (JDict []) = JDict tree"
    and w: "typed_warnings st"
    by (auto simp: well_typed_iff)
  have k: "typed_warnings (st(''security_findings'' \<mapsto> JList []))"
    using w by (auto simp: typed_warnings_iff)
  show ?thesis
    using k by (auto simp: security_node_def t Let_def analysis_failed_eq [OF w] typed_warnings_iff
                     split: sum.splits)
qed

lemma performance_node_returns:
  assumes "well_typed st"
  shows "\<exists>u. performance_node env st = Inr u \<and> u ''performance_findings'' \<noteq> None \<and> typed_warnings u"
proof -
  from assms obtain tree where t: "state_get st ''file_tree'' (JDict []) = JDict tree"
    and w: "typed_warnings st"
    by (auto simp: well_typed_iff)
  show ?thesis
    by (auto simp: performance_node_def t Let_def analysis_failed_eq [OF w] typed_warnings_iff
             split: sum.splits)
qed

lemma style_node_returns:
  assumes "well_typed st"
  shows "\<exists>u. style_node env st = Inr u \<and> u ''style_findings'' \<noteq> None \<and> typed_warnings u"
proof -
  from assms obtain tree where t: "state_get st ''file_tree'' (JDict []) = JDict tree"
    and w: "typed_warnings st"
    by (auto simp: well_typed_iff)
  show ?thesis
    by (auto simp: style_node_def t Let_def analysis_failed_eq [OF w] typed_warnings_iff
             split: sum.splits)
qed

lemma merge_updates_foldl:
  assumes "\<forall>n \<in> set xs. fst (run_node env n s0) = Inr (U n)"
  shows "merge_updates st (map (\<lambda>n. (n, run_node env n s0)) xs)
           = Inr (foldl (\<lambda>s n. apply_update n s (U n)) st xs)"
  using assms
proof (induction xs arbitrary: st)
  case Nil
  then show ?case by simp
next
  case (Cons x xs)
  obtain r evs where r: "run_node env x s0 = (r, evs)" by (cases "run_node env x s0")
  with Cons.prems have "r = Inr (U x)" by simp
  with r Cons show ?case by simp
qed

lemma merged_three:
  assumes xs: "xs \<in> {[Security, Performance, Style], [Security, Style, Performance],
                     [Performance, Security, Style], [Performance, Style, Security],
                     [Style, Security, Performance], [Style, Performance, Security]}"
      and ty: "typed_warnings (U Security)" "typed_warnings (U Performance)" "typed_warnings (U Style)"
      and fk: "U Security ''security_findings'' \<noteq> None" "U Performance ''performance_findings'' \<noteq> None"
              "U Style ''style_findings'' \<noteq> None"
  shows "foldl (\<lambda>s n. apply_update n s (U n)) st xs ''security_findings'' = U Security ''security_findings''"
    and "foldl (\<lambda>s n. apply_update n s (U n)) st xs ''performance_findings'' = U Performance ''performance_findings''"
    and "foldl (\<lambda>s n. apply_update n s (U n)) st xs ''style_findings'' = U Style ''style_findings''"
    and "mset (warnings_of (foldl (\<lambda>s n. apply_update n s (U n)) st xs)) =
           mset (warnings_of st) + mset (warnings_of (U Security)) + mset (warnings_of (U Performance))
             + mset (warnings_of (U Style))"
proof -
  have k: "findings_key Security = ''security_findings''" "findings_key Performance = ''performance_findings''"
    "findings_key Style = ''style_findings''"
    by (simp_all add: findings_key_def)
  note fa = findings_apply [where b = Security, unfolded k] findings_apply [where b = Performance, unfolded k]
    findings_apply [where b = Style, unfolded k]
  show "foldl (\<lambda>s n. apply_update n s (U n)) st xs ''security_findings'' = U Security ''security_findings''"
    using xs fk by (auto simp: fa)
  show "foldl (\<lambda>s n. apply_update n s (U n)) st xs ''performance_findings'' = U Performance ''performance_findings''"
    using xs fk by (auto simp: fa)
  show "foldl (\<lambda>s n. apply_update n s (U n)) st xs ''style_findings'' = U Style ''style_findings''"
    using xs fk by (auto simp: fa)
  show "mset (warnings_of (foldl (\<lambda>s n. apply_update n s (U n)) st xs)) =
           mset (warnings_of st) + mset (warnings_of (U Security)) + mset (warnings_of (U Performance))
             + mset (warnings_of (U Style))"
    using xs ty by (auto simp: warnings_of_apply)
qed

lemma ingest_success_shape:
  assumes "ingest env p tds0 = (result, tds, evs)" and "success result"
  shows "\<exists>root fs. file_tree result =
           [(''root_path'', JStr root), (''files'', JList fs), (''total_files'', JNum (int (length fs)))]"
  using assms
  by (auto simp: ingest_def ingest_git_repository_def ingest_local_directory_def
                 scan_local_directory_def Let_def
           split: if_splits prod.splits sum.splits)

lemma branch_node_result:
  assumes e: "st ''error'' = None"
      and w: "st ''working_directory'' = Some (JStr wd)" "wd \<noteq> []"
      and t: "st ''file_tree'' = Some (JDict ft)" "dict_get ft ''files'' (JList []) = JList files" "files \<noteq> []"
      and tw: "st ''warnings'' = None"
      and n: "n \<in> {Security, Performance, Style}"
  shows "fst (run_node env n st) =
           (case env_analyze env n (JStr wd) (JList files) of
              Inr f \<Rightarrow> Inr [findings_key n \<mapsto> JList f]
            | Inl msg \<Rightarrow>
                Inr [findings_key n \<mapsto> JList [],
                     ''warnings'' \<mapsto> JList [JStr (branch_label n @ '' analysis failed: '' @ msg)]])"
proof -
  have tyw: "typed_warnings st" using tw by (simp add: typed_warnings_iff)
  have wo: "warnings_of st = []" using tw by (simp add: warnings_of_def)
  show ?thesis
    using n e w t
    by (auto simp: run_node_def security_node_def performance_node_def style_node_def
                   state_get_def Let_def analysis_failed_eq [OF tyw] wo findings_key_def branch_label_def
             split: sum.splits)
qed

lemma other_key_apply:
  assumes "n \<in> {Security, Performance, Style}"
      and "k \<notin> {''security_findings'', ''performance_findings'', ''style_findings'', ''warnings''}"
  shows "apply_update n s u k = s k"
  using assms by (auto simp: apply_update_def write_keys_def)

lemma other_key_foldl:
  assumes "set xs \<subseteq> {Security, Performance, Style}"
      and "k \<notin> {''security_findings'', ''performance_findings'', ''style_findings'', ''warnings''}"
  shows "foldl (\<lambda>s n. apply_update n s (U n)) st xs k = st k"
  using assms(1)
proof (induction xs arbitrary: st)
  case Nil
  then show ?case by simp
next
  case (Cons x xs)
  then show ?case using other_key_apply [OF _ assms(2)] by simp
qed

lemma route_all_aggregator:
  "route_all create_review_graph [Aggregator] st = ([END], st)"
  by (simp add: targets_def create_review_graph_def)


lemma single_order: "mset xs = mset [a] \<Longrightarrow> xs = [a]"
  by simp

text \<open>
  Claim C1: the code departs from it. The gate halts on an empty inventory and leaves a
  non-empty error, as the claim says; but only the edge to \<open>security\<close> depends on the
  gate. The plain edges from \<open>ingestor\<close> to \<open>performance\<close> and \<open>style\<close> trigger
  these two stages whatever the gate returns (lemma \<open>targets_ingestor\<close>), and their
  edges trigger the aggregator. In the run on the empty directory \<open>/work/empty\<close> the
  gate returns \<open>End\<close>, and the performance stage, the style stage and the aggregator
  are still called; the final state holds two finding lists that ingestion did not leave.
\<close>

theorem halted_run_still_runs_stages:
  "fst (should_continue_to_agents
         (apply_update Ingestor (initial_state ''/work/empty'' ''out'')
            (fst (ingestor_node sample_env (initial_state ''/work/empty'' ''out''))))) = End \<and>
   snd (run_review sample_env (\<lambda>ns. ns) ''/work/empty'' ''out'') =
     [Ran Ingestor, Scan ''/work/empty'', Ran Performance, Ran Style, Ran Aggregator] \<and>
   (\<exists>final. fst (run_review sample_env (\<lambda>ns. ns) ''/work/empty'' ''out'') = Inr final \<and>
      final ''error'' = Some (JStr ''No files found to analyze'') \<and>
      final ''performance_findings'' = Some (JList []) \<and>
      final ''style_findings'' = Some (JList []))"
proof -
  have a: "fst (should_continue_to_agents
         (apply_update Ingestor (initial_state ''/work/empty'' ''out'')
            (fst (ingestor_node sample_env (initial_state ''/work/empty'' ''out''))))) = End"
    by code_simp
  have b: "snd (run_review sample_env (\<lambda>ns. ns) ''/work/empty'' ''out'') =
     [Ran Ingestor, Scan ''/work/empty'', Ran Performance, Ran Style, Ran Aggregator]"
    by code_simp
  have c: "(case fst (run_review sample_env (\<lambda>ns. ns) ''/work/empty'' ''out'') of
              Inl e \<Rightarrow> False
            | Inr final \<Rightarrow>
                final ''error'' = Some (JStr ''No files found to analyze'') \<and>
                final ''performance_findings'' = Some (JList []) \<and>
                final ''style_findings'' = Some (JList []))"
    by code_simp
  from c have "\<exists>final. fst (run_review sample_env (\<lambda>ns. ns) ''/work/empty'' ''out'') = Inr final \<and>
      final ''error'' = Some (JStr ''No files found to analyze'') \<and>
      final ''performance_findings'' = Some (JList []) \<and>
      final ''style_findings'' = Some (JList [])"
    by (cases "fst (run_review sample_env (\<lambda>ns. ns) ''/work/empty'' ''out'')") auto
  with a b show ?thesis by blast
qed


text \<open>
  Claim C3: the code departs from it. The input is a remote repository, cloned into the
  temporary directory \<open>/tmp/code_review_k3\<close>; ingestion succeeds and clears the
  agent's list of temporary directories, so that the downstream stages can read the
  clone. The run ends with a report, and no stage has called \<open>cleanup_repository\<close>
  or \<open>shutil.rmtree\<close> on the directory: it is released zero times, not once.
\<close>

theorem remote_run_never_releases:
  "is_git_url (env_urlparse sample_env) ''https://github.com/acme/shop'' \<and>
   snd (run_review sample_env (\<lambda>ns. ns) ''https://github.com/acme/shop'' ''out'') =
     [Ran Ingestor, Clone ''https://github.com/acme/shop'', Scan ''/tmp/code_review_k3'',
      Ran Security, Ran Performance, Ran Style, Ran Aggregator] \<and>
   Cleanup ''/tmp/code_review_k3'' \<notin> set (snd (run_review sample_env (\<lambda>ns. ns) ''https://github.com/acme/shop'' ''out'')) \<and>
   Rmtree ''/tmp/code_review_k3'' \<notin> set (snd (run_review sample_env (\<lambda>ns. ns) ''https://github.com/acme/shop'' ''out'')) \<and>
   (\<exists>final. fst (run_review sample_env (\<lambda>ns. ns) ''https://github.com/acme/shop'' ''out'') = Inr final \<and>
      final ''is_temp_directory'' = Some (JBool True) \<and>
      final ''working_directory'' = Some (JStr ''/tmp/code_review_k3'') \<and>
      final ''final_report'' = Some (JStr ''# Report'') \<and>
      final ''error'' = None)"
proof -
  have g: "is_git_url (env_urlparse sample_env) ''https://github.com/acme/shop''"
    by code_simp
  have b: "snd (run_review sample_env (\<lambda>ns. ns) ''https://github.com/acme/shop'' ''out'') =
     [Ran Ingestor, Clone ''https://github.com/acme/shop'', Scan ''/tmp/code_review_k3'',
      Ran Security, Ran Performance, Ran Style, Ran Aggregator]"
    by code_simp
  have c: "(case fst (run_review sample_env (\<lambda>ns. ns) ''https://github.com/acme/shop'' ''out'') of
              Inl e \<Rightarrow> False
            | Inr final \<Rightarrow>
                final ''is_temp_directory'' = Some (JBool True) \<and>
                final ''working_directory'' = Some (JStr ''/tmp/code_review_k3'') \<and>
                final ''final_report'' = Some (JStr ''# Report'') \<and>
                final ''error'' = None)"
    by code_simp
  from c have d: "\<exists>final. fst (run_review sample_env (\<lambda>ns. ns) ''https://github.com/acme/shop'' ''out'') = Inr final \<and>
      final ''is_temp_directory'' = Some (JBool True) \<and>
      final ''working_directory'' = Some (JStr ''/tmp/code_review_k3'') \<and>
      final ''final_report'' = Some (JStr ''# Report'') \<and>
      final ''error'' = None"
    by (cases "fst (run_review sample_env (\<lambda>ns. ns) ''https://github.com/acme/shop'' ''out'')") auto
  show ?thesis
    unfolding b using g d by simp
qed

text \<open>
  Claim C2. Let a state pass the gate, with \<open>warnings\<close> and \<open>file_tree\<close> of the
  types of the data model. Whatever the order in which the three analysis branches
  complete, each branch returns an update, the barrier merges the three updates and
  hands over to the aggregator, and the merged state holds under each branch's key the
  finding list that this branch returned; its warnings are those of the state before
  and of the three updates, each as often as it was given. Merging one branch's update
  into any state leaves the finding lists of the other two branches as they are and
  keeps the warnings merged so far as a prefix.
\<close>

theorem barrier_keeps_all_findings:
  assumes gate: "fst (should_continue_to_agents st) = Continue"
      and wt: "well_typed st"
      and perm: "mset (completion [Security, Performance, Style]) = mset [Security, Performance, Style]"
  shows "\<exists>us up uy merged evs.
           security_node env st = Inr us \<and> performance_node env st = Inr up \<and>
           style_node env st = Inr uy \<and>
           superstep env completion create_review_graph [Security, Performance, Style] st
             = (Inr ([Aggregator], merged), evs) \<and>
           merged ''security_findings'' = us ''security_findings'' \<and>
           merged ''performance_findings'' = up ''performance_findings'' \<and>
           merged ''style_findings'' = uy ''style_findings'' \<and>
           us ''security_findings'' \<noteq> None \<and> up ''performance_findings'' \<noteq> None \<and>
           uy ''style_findings'' \<noteq> None \<and>
           mset (warnings_of merged) =
             mset (warnings_of st) + mset (warnings_of us) + mset (warnings_of up) + mset (warnings_of uy) \<and>
           (\<forall>s. \<forall>(b, u) \<in> {(Security, us), (Performance, up), (Style, uy)}.
              (\<forall>b' \<in> {Security, Performance, Style}.
                 b' \<noteq> b \<longrightarrow> apply_update b s u (findings_key b') = s (findings_key b')) \<and>
              prefix (warnings_of s) (warnings_of (apply_update b s u)))"
proof -
  obtain us where us: "security_node env st = Inr us" "us ''security_findings'' \<noteq> None" "typed_warnings us"
    using security_node_returns [OF wt] by blast
  obtain up where up: "performance_node env st = Inr up" "up ''performance_findings'' \<noteq> None" "typed_warnings up"
    using performance_node_returns [OF wt] by blast
  obtain uy where uy: "style_node env st = Inr uy" "uy ''style_findings'' \<noteq> None" "typed_warnings uy"
    using style_node_returns [OF wt] by blast
  define U where "U = (\<lambda>n. if n = Security then us else if n = Performance then up else uy)"
  have U: "U Security = us" "U Performance = up" "U Style = uy"
    by (simp_all add: U_def)
  let ?xs = "completion [Security, Performance, Style]"
  have xs: "?xs \<in> {[Security, Performance, Style], [Security, Style, Performance],
                     [Performance, Security, Style], [Performance, Style, Security],
                     [Style, Security, Performance], [Style, Performance, Security]}"
    using three_orders [OF perm] .
  have "\<forall>n \<in> {Security, Performance, Style}. fst (run_node env n st) = Inr (U n)"
    by (simp add: run_node_def us up uy U)
  moreover have "set ?xs = {Security, Performance, Style}"
    using xs by auto
  ultimately have run: "\<forall>n \<in> set ?xs. fst (run_node env n st) = Inr (U n)"
    by simp
  let ?m = "foldl (\<lambda>s n. apply_update n s (U n)) st ?xs"
  have merge: "merge_updates st (map (\<lambda>n. (n, run_node env n st)) ?xs) = Inr ?m"
    by (rule merge_updates_foldl [OF run])
  have step: "\<exists>evs. superstep env completion create_review_graph [Security, Performance, Style] st
                = (Inr ([Aggregator], ?m), evs)"
    by (simp add: superstep_def Let_def merge route_all_branches del: route_all.simps)
  note m3 = merged_three [OF xs, of U, unfolded U, OF us(3) up(3) uy(3) us(2) up(2) uy(2), of st]
  have single: "\<forall>s. \<forall>(b, u) \<in> {(Security, us), (Performance, up), (Style, uy)}.
              (\<forall>b' \<in> {Security, Performance, Style}.
                 b' \<noteq> b \<longrightarrow> apply_update b s u (findings_key b') = s (findings_key b')) \<and>
              prefix (warnings_of s) (warnings_of (apply_update b s u))"
    using us(3) up(3) uy(3) by (auto simp: findings_apply warnings_of_apply)
  from step obtain evs where
    "superstep env completion create_review_graph [Security, Performance, Style] st
       = (Inr ([Aggregator], ?m), evs)" by blast
  with us up uy m3 single show ?thesis
    by blast
qed

theorem barrier_keeps_all_findings_witness:
  "fst (should_continue_to_agents ingested_state) = Continue \<and>
   well_typed ingested_state \<and>
   mset (rev [Security, Performance, Style]) = mset [Security, Performance, Style] \<and>
   (\<exists>merged evs.
      superstep failing_env rev create_review_graph [Security, Performance, Style] ingested_state
        = (Inr ([Aggregator], merged), evs) \<and>
      merged ''security_findings'' =
        Some (JList [JDict [(''file'', JStr ''/tmp/code_review_k3/app.py''),
                            (''issue_type'', JStr ''Security'')]]) \<and>
      merged ''performance_findings'' = Some (JList []) \<and>
      merged ''style_findings'' =
        Some (JList [JDict [(''file'', JStr ''/tmp/code_review_k3/app.py''),
                            (''issue_type'', JStr ''Style'')]]))"
proof -
  have g: "fst (should_continue_to_agents ingested_state) = Continue"
    by (simp add: should_continue_to_agents_def ingested_state_def state_get_def is_zero_def)
  have t: "well_typed ingested_state"
    by (simp add: well_typed_def typed_warnings_def ingested_state_def state_get_def)
  have p: "mset (rev [Security, Performance, Style]) = mset [Security, Performance, Style]"
    by simp
  have s: "security_node failing_env ingested_state =
             Inr [''security_findings'' \<mapsto>
                    JList [JDict [(''file'', JStr ''/tmp/code_review_k3/app.py''),
                                  (''issue_type'', JStr ''Security'')]]]"
    by (simp add: security_node_def failing_env_def ingested_state_def state_get_def dict_get_def
                  branch_label_def)
  have y: "style_node failing_env ingested_state =
             Inr [''style_findings'' \<mapsto>
                    JList [JDict [(''file'', JStr ''/tmp/code_review_k3/app.py''),
                                  (''issue_type'', JStr ''Style'')]]]"
    by (simp add: style_node_def failing_env_def ingested_state_def state_get_def dict_get_def
                  branch_label_def)
  have f: "performance_node failing_env ingested_state =
             Inr [''performance_findings'' \<mapsto> JList [],
                  ''warnings'' \<mapsto> JList [JStr ''Performance analysis failed: model timed out'']]"
    by (simp add: performance_node_def failing_env_def ingested_state_def state_get_def dict_get_def
                  analysis_failed_def)
  from barrier_keeps_all_findings
         [where st = ingested_state and completion = rev and env = failing_env, OF g t p]
  obtain us up uy merged evs where
    "security_node failing_env ingested_state = Inr us"
    "performance_node failing_env ingested_state = Inr up"
    "style_node failing_env ingested_state = Inr uy"
    "superstep failing_env rev create_review_graph [Security, Performance, Style] ingested_state
       = (Inr ([Aggregator], merged), evs)"
    "merged ''security_findings'' = us ''security_findings''"
    "merged ''performance_findings'' = up ''performance_findings''"
    "merged ''style_findings'' = uy ''style_findings''"
    by blast
  with s f y have "superstep failing_env rev create_review_graph [Security, Performance, Style] ingested_state
        = (Inr ([Aggregator], merged), evs) \<and>
      merged ''security_findings'' =
        Some (JList [JDict [(''file'', JStr ''/tmp/code_review_k3/app.py''),
                            (''issue_type'', JStr ''Security'')]]) \<and>
      merged ''performance_findings'' = Some (JList []) \<and>
      merged ''style_findings'' =
        Some (JList [JDict [(''file'', JStr ''/tmp/code_review_k3/app.py''),
                            (''issue_type'', JStr ''Style'')]])"
    by auto
  with g t p show ?thesis by blast
qed

lemma supersteps_unfold:
  assumes "superstep env c g (n # ns) st = (Inr (nxt, st'), evs)"
  shows "supersteps env c g (Suc fuel) (n # ns) st =
           (fst (supersteps env c g fuel nxt st'), evs @ snd (supersteps env c g fuel nxt st'))"
  using assms by (simp add: case_prod_beta)

lemma warnings_singleton:
  assumes "mset (warnings_of st) = {#w#}"
  shows "st ''warnings'' = Some (JList [w])"
  using assms by (auto simp: warnings_of_def split: option.splits json.splits)

lemma branch_events:
  assumes "set xs \<subseteq> {Security, Performance, Style}"
  shows "concat (map (\<lambda>(n, r, evs). evs) (map (\<lambda>n. (n, run_node env n st)) xs)) = map Ran xs"
  using assms by (induction xs) (auto simp: run_node_def)

text \<open>
  Claim C4. Take a run whose ingestion succeeds with a working directory and at least
  one file, in which the analysis of exactly one branch raises and the analyses of the
  other two return their findings. Let \<open>merged\<close> be the state the ingestion left,
  with the failed branch's finding list empty, the other two finding lists as the
  analyses returned them, and the warnings holding exactly the one warning of the failed
  branch; and let the generation of the report from that state into the run's output
  directory return a report and its path. Then, whatever the order of completion, the
  run ends without exception; the ingestor, the three branches and then the aggregator
  have each run once; and the final state is \<open>merged\<close> with that report and that
  path, and with no error.
\<close>

theorem one_failed_branch_is_not_fatal:
  assumes perm: "\<forall>ns. mset (completion ns) = mset ns"
      and path: "path \<noteq> []"
      and ing: "ingest env path [] = (result, tds, evs0)"
      and suc: "success result"
      and wd: "working_directory result \<noteq> []"
      and files: "dict_get (file_tree result) ''files'' (JList []) = JList files"
      and nonempty: "files \<noteq> []"
      and b: "b \<in> {Security, Performance, Style}"
      and fail: "env_analyze env b (JStr (working_directory result)) (JList files) = Inl msg"
      and ok: "\<forall>b' \<in> {Security, Performance, Style}. b' \<noteq> b \<longrightarrow>
                 env_analyze env b' (JStr (working_directory result)) (JList files) = Inr (found b')"
      and ingested: "ingested = apply_update Ingestor (initial_state path output_dir)
                                  (fst (ingestor_node env (initial_state path output_dir)))"
      and merged: "merged = ingested
                     (''security_findings'' \<mapsto> JList (if b = Security then [] else found Security),
                      ''performance_findings'' \<mapsto> JList (if b = Performance then [] else found Performance),
                      ''style_findings'' \<mapsto> JList (if b = Style then [] else found Style),
                      ''warnings'' \<mapsto> JList [JStr (branch_label b @ '' analysis failed: '' @ msg)])"
      and gen: "env_generate_report env merged (JStr output_dir) = Inr (c, p)"
  shows "run_review env completion path output_dir =
           (Inr (merged(''final_report'' \<mapsto> JStr c, ''report_path'' \<mapsto> JStr p)),
            Ran Ingestor # evs0 @ map Ran (completion [Security, Performance, Style]) @ [Ran Aggregator]) \<and>
         merged ''error'' = None"
proof -
  let ?g = create_review_graph
  let ?init = "initial_state path output_dir"
  let ?wd = "working_directory result"
  let ?w = "JStr (branch_label b @ '' analysis failed: '' @ msg)"
  obtain root fs where ft: "file_tree result =
      [(''root_path'', JStr root), (''files'', JList fs), (''total_files'', JNum (int (length fs)))]"
    using ingest_success_shape [OF ing suc] by blast
  with files have fs: "fs = files" by (simp add: dict_get_def)
  have total: "dict_get (file_tree result) ''total_files'' JNull = JNum (int (length files))"
    using ft fs by (simp add: dict_get_def)
  define upd where "upd = ?init(''file_tree'' \<mapsto> JDict (file_tree result),
                        ''total_files'' \<mapsto> JNum (int (length files)),
                        ''working_directory'' \<mapsto> JStr ?wd,
                        ''source_type'' \<mapsto> JStr (source_type result),
                        ''is_temp_directory'' \<mapsto> JBool (is_temp result))"
  have node1: "ingestor_node env ?init = (upd, evs0)"
    using path suc by (simp add: ingestor_node_def initial_state_def state_get_def ing total upd_def)
  define st1 where "st1 = ingested"
  have st1_def: "st1 = apply_update Ingestor ?init upd"
    unfolding st1_def ingested node1 by simp
  have f_e: "st1 ''error'' = None"
    and f_w: "st1 ''working_directory'' = Some (JStr ?wd)"
    and f_t: "st1 ''file_tree'' = Some (JDict (file_tree result))"
    and f_n: "st1 ''total_files'' = Some (JNum (int (length files)))"
    and f_ws: "st1 ''warnings'' = None"
    and f_o: "st1 ''output_dir'' = Some (JStr output_dir)"
    by (simp_all add: st1_def upd_def apply_update_def write_keys_def initial_state_def)
  have gate: "should_continue_to_agents st1 = (Continue, st1)"
    using nonempty by (simp add: should_continue_to_agents_def state_get_def f_e f_n is_zero_def)
  have "mset (completion [Ingestor]) = mset [Ingestor]"
    using perm by (rule spec)
  then have c1: "completion [Ingestor] = [Ingestor]"
    by (rule single_order)
  have rn1: "run_node env Ingestor ?init = (Inr upd, Ran Ingestor # evs0)"
    by (simp add: run_node_def node1)
  have mu1: "merge_updates ?init [(Ingestor, Inr upd, Ran Ingestor # evs0)] = Inr st1"
    by (simp add: st1_def)
  have ra1: "route_all ?g [Ingestor] st1 = ([Security, Performance, Style], st1)"
    by (simp add: targets_ingestor gate)
  have step1: "superstep env completion ?g [Ingestor] ?init
                 = (Inr ([Security, Performance, Style], st1), Ran Ingestor # evs0)"
    unfolding superstep_def c1
    by (simp add: rn1 mu1 ra1 del: route_all.simps merge_updates.simps)
  \<comment> \<open>the barrier\<close>
  define U where "U = (\<lambda>n. if n = b then [findings_key n \<mapsto> JList [], ''warnings'' \<mapsto> JList [?w]]
                             else [findings_key n \<mapsto> JList (found n)])"
  let ?xs = "completion [Security, Performance, Style]"
  have xs: "?xs \<in> {[Security, Performance, Style], [Security, Style, Performance],
                     [Performance, Security, Style], [Performance, Style, Security],
                     [Style, Security, Performance], [Style, Performance, Security]}"
    using three_orders [OF spec [OF perm]] .
  have res: "fst (run_node env n st1) = Inr (U n)" if n: "n \<in> {Security, Performance, Style}" for n
  proof (cases "n = b")
    case True
    with branch_node_result [OF f_e f_w wd f_t files nonempty f_ws n, of env] fail
    show ?thesis by (simp add: U_def)
  next
    case False
    with ok n have "env_analyze env n (JStr ?wd) (JList files) = Inr (found n)" by blast
    with branch_node_result [OF f_e f_w wd f_t files nonempty f_ws n, of env] False
    show ?thesis by (simp add: U_def)
  qed
  have "set ?xs = {Security, Performance, Style}" using xs by auto
  with res have run: "\<forall>n \<in> set ?xs. fst (run_node env n st1) = Inr (U n)" by simp
  have sub: "set ?xs \<subseteq> {Security, Performance, Style}" using xs by auto
  define mg where "mg = foldl (\<lambda>s n. apply_update n s (U n)) st1 ?xs"
  have merge: "merge_updates st1 (map (\<lambda>n. (n, run_node env n st1)) ?xs) = Inr mg"
    unfolding mg_def by (rule merge_updates_foldl [OF run])
  have step2: "superstep env completion ?g [Security, Performance, Style] st1
                 = (Inr ([Aggregator], mg), map Ran ?xs)"
    unfolding superstep_def Let_def branch_events [OF sub] merge
    by (simp add: route_all_branches del: route_all.simps)
  have tyU: "typed_warnings (U n)" for n
    by (simp add: U_def typed_warnings_iff findings_key_def)
  have kU: "U Security ''security_findings'' \<noteq> None" "U Performance ''performance_findings'' \<noteq> None"
    "U Style ''style_findings'' \<noteq> None"
    by (simp_all add: U_def findings_key_def)
  note m3 = merged_three [OF xs tyU tyU tyU kU, of st1, folded mg_def]
  have mf: "mg (findings_key n) = U n (findings_key n)" if "n \<in> {Security, Performance, Style}" for n
    using that m3(1,2,3) by (auto simp: findings_key_def)
  have wU: "mset (warnings_of (U Security)) + mset (warnings_of (U Performance)) + mset (warnings_of (U Style))
              = {#?w#}"
    using b by (auto simp: U_def warnings_of_def findings_key_def)
  have "warnings_of st1 = []" using f_ws by (simp add: warnings_of_def)
  with m3(4) wU have "mset (warnings_of mg) = {#?w#}"
    by (simp add: add.assoc)
  then have m_w: "mg ''warnings'' = Some (JList [?w])"
    by (rule warnings_singleton)
  have "mg k = merged k" for k
  proof (cases "k \<in> {''security_findings'', ''performance_findings'', ''style_findings'', ''warnings''}")
    case True
    then show ?thesis
      using m3(1,2,3) m_w by (auto simp: merged U_def findings_key_def)
  next
    case False
    then have "mg k = st1 k"
      unfolding mg_def using other_key_foldl [OF sub, of k U st1] by blast
    with False show ?thesis by (simp add: merged st1_def [symmetric] \<open>st1 = ingested\<close> [symmetric])
  qed
  then have mg: "mg = merged" by (rule ext)
  have m_e: "merged ''error'' = None"
    using f_e by (simp add: merged \<open>st1 = ingested\<close> [symmetric])
  have m_o: "merged ''output_dir'' = Some (JStr output_dir)"
    using f_o by (simp add: merged \<open>st1 = ingested\<close> [symmetric])
  \<comment> \<open>the aggregator\<close>
  have agg: "aggregator_node env merged
               = merged(''final_report'' \<mapsto> JStr c, ''report_path'' \<mapsto> JStr p)"
    by (simp add: aggregator_node_def state_get_def m_e m_o gen)
  define final where "final = apply_update Aggregator merged (aggregator_node env merged)"
  have fin: "final = merged(''final_report'' \<mapsto> JStr c, ''report_path'' \<mapsto> JStr p)"
    unfolding final_def agg
    by (rule ext) (simp add: apply_update_def write_keys_def m_e)
  have "mset (completion [Aggregator]) = mset [Aggregator]"
    using perm by (rule spec)
  then have c3: "completion [Aggregator] = [Aggregator]"
    by (rule single_order)
  have rn3: "run_node env Aggregator merged = (Inr (aggregator_node env merged), [Ran Aggregator])"
    by (simp add: run_node_def)
  have mu3: "merge_updates merged [(Aggregator, Inr (aggregator_node env merged), [Ran Aggregator])]
               = Inr final"
    by (simp add: final_def)
  have step3: "superstep env completion ?g [Aggregator] merged = (Inr ([], final), [Ran Aggregator])"
    unfolding superstep_def c3
    by (simp add: rn3 mu3 route_all_aggregator del: route_all.simps merge_updates.simps)
  have run: "run_review env completion path output_dir
               = (Inr final, (Ran Ingestor # evs0) @ map Ran ?xs @ [Ran Aggregator] @ [])"
  proof -
    have n25: "(25::nat) = Suc (Suc (Suc 22))" by simp
    have s3: "supersteps env completion ?g (Suc 22) [Aggregator] merged = (Inr final, [Ran Aggregator] @ [])"
      using supersteps_unfold [OF step3, of 22] by simp
    have s2: "supersteps env completion ?g (Suc (Suc 22)) [Security, Performance, Style] st1
                = (Inr final, map Ran ?xs @ [Ran Aggregator] @ [])"
      using supersteps_unfold [OF step2 [unfolded mg], of "Suc 22"] s3 by simp
    have s1: "supersteps env completion ?g (Suc (Suc (Suc 22))) [Ingestor] ?init
                = (Inr final, (Ran Ingestor # evs0) @ map Ran ?xs @ [Ran Aggregator] @ [])"
      using supersteps_unfold [OF step1, of "Suc (Suc 22)"] s2 by simp
    show ?thesis
      unfolding run_review_def invoke_def n25 using s1 by (simp add: create_review_graph_def)
  qed
  from run fin m_e show ?thesis by simp
qed

theorem one_failed_branch_is_not_fatal_witness:
  "(\<forall>ns::node list. mset (rev ns) = mset ns) \<and>
   success (fst (ingest failing_env ''https://github.com/acme/shop'' [])) \<and>
   env_analyze failing_env Performance (JStr ''/tmp/code_review_k3'')
     (JList [JDict [(''path'', JStr ''/tmp/code_review_k3/app.py'')]]) = Inl ''model timed out'' \<and>
   (\<exists>merged.
      merged ''performance_findings'' = Some (JList []) \<and>
      merged ''security_findings'' =
        Some (JList [JDict [(''file'', JStr ''/tmp/code_review_k3/app.py''),
                            (''issue_type'', JStr ''Security'')]]) \<and>
      merged ''style_findings'' =
        Some (JList [JDict [(''file'', JStr ''/tmp/code_review_k3/app.py''),
                            (''issue_type'', JStr ''Style'')]]) \<and>
      merged ''warnings'' = Some (JList [JStr ''Performance analysis failed: model timed out'']) \<and>
      merged ''error'' = None \<and>
      env_generate_report failing_env merged (JStr ''out'')
        = Inr (''# Report. Warnings: Performance analysis failed: model timed out'',
               ''out/REVIEW_REPORT.md'') \<and>
      run_review failing_env rev ''https://github.com/acme/shop'' ''out''
        = (Inr (merged(''final_report'' \<mapsto>
                         JStr ''# Report. Warnings: Performance analysis failed: model timed out'',
                       ''report_path'' \<mapsto> JStr ''out/REVIEW_REPORT.md'')),
           [Ran Ingestor, Clone ''https://github.com/acme/shop'', Scan ''/tmp/code_review_k3'',
            Ran Style, Ran Performance, Ran Security, Ran Aggregator]))"
proof -
  let ?url = "''https://github.com/acme/shop''"
  let ?files = "[JDict [(''path'', JStr ''/tmp/code_review_k3/app.py'')]]"
  let ?found = "\<lambda>n. [JDict [(''file'', JStr ''/tmp/code_review_k3/app.py''),
                            (''issue_type'', JStr (branch_label n))]]"
  let ?c = "''# Report. Warnings: Performance analysis failed: model timed out''"
  let ?p = "''out/REVIEW_REPORT.md''"
  let ?ingested = "apply_update Ingestor (initial_state ?url ''out'')
                     (fst (ingestor_node failing_env (initial_state ?url ''out'')))"
  let ?merged = "?ingested
       (''security_findings'' \<mapsto> JList (if Performance = Security then [] else ?found Security),
        ''performance_findings'' \<mapsto> JList (if Performance = Performance then [] else ?found Performance),
        ''style_findings'' \<mapsto> JList (if Performance = Style then [] else ?found Style),
        ''warnings'' \<mapsto> JList [JStr (branch_label Performance @ '' analysis failed: '' @ ''model timed out'')])"
  have perm: "\<forall>ns::node list. mset (rev ns) = mset ns" by simp
  have path: "?url \<noteq> []" by simp
  have ing: "ingest failing_env ?url [] =
               (fst (ingest failing_env ?url []), fst (snd (ingest failing_env ?url [])),
                snd (snd (ingest failing_env ?url [])))"
    by simp
  have suc: "success (fst (ingest failing_env ?url []))" by code_simp
  have wdv: "working_directory (fst (ingest failing_env ?url [])) = ''/tmp/code_review_k3''"
    by code_simp
  have wd: "working_directory (fst (ingest failing_env ?url [])) \<noteq> []"
    unfolding wdv by simp
  have files: "dict_get (file_tree (fst (ingest failing_env ?url []))) ''files'' (JList []) = JList ?files"
    by code_simp
  have evs0: "snd (snd (ingest failing_env ?url [])) = [Clone ?url, Scan ''/tmp/code_review_k3'']"
    by code_simp
  have nonempty: "?files \<noteq> []" by simp
  have b: "Performance \<in> {Security, Performance, Style}" by simp
  have fail: "env_analyze failing_env Performance
                (JStr (working_directory (fst (ingest failing_env ?url [])))) (JList ?files)
                = Inl ''model timed out''"
    by (simp add: failing_env_def)
  have ok: "\<forall>b' \<in> {Security, Performance, Style}. b' \<noteq> Performance \<longrightarrow>
              env_analyze failing_env b'
                (JStr (working_directory (fst (ingest failing_env ?url [])))) (JList ?files)
                = Inr (?found b')"
    by (simp add: failing_env_def)
  have mw: "?merged ''warnings'' = Some (JList [JStr ''Performance analysis failed: model timed out''])"
    by (simp add: branch_label_def)
  have g: "env_generate_report failing_env s (JStr d) =
             Inr (''# Report. Warnings:'' @
                    concat (map (\<lambda>w. case w of JStr m \<Rightarrow> '' '' @ m | other \<Rightarrow> []) (warnings_of s)),
                  d @ ''/REVIEW_REPORT.md'')" for s d
    by (simp add: failing_env_def)
  have wo: "warnings_of ?merged = [JStr ''Performance analysis failed: model timed out'']"
    by (simp add: warnings_of_def branch_label_def)
  have gen: "env_generate_report failing_env ?merged (JStr ''out'') = Inr (?c, ?p)"
    unfolding g wo by simp
  have keys: "?merged ''performance_findings'' = Some (JList [])"
    "?merged ''security_findings'' =
        Some (JList [JDict [(''file'', JStr ''/tmp/code_review_k3/app.py''),
                            (''issue_type'', JStr ''Security'')]])"
    "?merged ''style_findings'' =
        Some (JList [JDict [(''file'', JStr ''/tmp/code_review_k3/app.py''),
                            (''issue_type'', JStr ''Style'')]])"
    by (simp_all add: branch_label_def)
  from one_failed_branch_is_not_fatal
         [where completion = rev and output_dir = "''out''" and b = Performance
            and found = ?found and msg = "''model timed out''"
            and ingested = ?ingested and merged = ?merged and c = ?c and p = ?p,
          OF perm path ing suc wd files nonempty b fail ok refl refl gen]
  have r: "run_review failing_env rev ?url ''out'' =
             (Inr (?merged(''final_report'' \<mapsto> JStr ?c, ''report_path'' \<mapsto> JStr ?p)),
              [Ran Ingestor, Clone ?url, Scan ''/tmp/code_review_k3'',
               Ran Style, Ran Performance, Ran Security, Ran Aggregator])"
    and e: "?merged ''error'' = None"
    by (simp_all add: evs0 del: fun_upd_apply)
  have "env_analyze failing_env Performance (JStr ''/tmp/code_review_k3'') (JList ?files)
          = Inl ''model timed out''"
    by (simp add: failing_env_def)
  with perm suc keys mw e gen r show ?thesis by blast
qed

end
